theory Spec2Isabelle
  imports Main "HOL-Library.Word"
begin

section \<open>The SDL monitor driver of lv\_drivers (display/monitor.c)\<close>

text \<open>
  A shallow embedding of \<^verbatim>\<open>src/lv_drivers/display/monitor.c\<close>. The file is
  configured by preprocessor macros that are defined outside of it (in the driver and
  library configuration headers); they are the fields of the record \<open>config\<close>, and
  every \<^verbatim>\<open>#if\<close> of the source is an \<open>if\<close> on one of them.
\<close>

subsection \<open>Types of the source\<close>

text \<open>
  \<open>lv_coord_t\<close> is the library's 16 bit signed coordinate. The comparisons and the
  index arithmetic of the source are done after promotion to \<open>int\<close>, where 16 bit
  operands do not overflow (nor does \<open>y * MONITOR_HOR_RES\<close> for a resolution below
  \<open>2 ^ 16\<close>), so coordinates are mathematical integers here; the one narrowing
  conversion (the result of \<open>lv_area_get_width\<close>) is written out.
\<close>

type_synonym lv_coord_t = int
type_synonym uint32_t = "32 word"

text \<open>
  \<open>lv_color_t\<close>: a pixel of the rendering library, given by its \<open>full\<close> member.
  With \<open>LV_COLOR_DEPTH\<close> 24 or 32 it is the 32 bit word that \<open>memcpy\<close> moves.
\<close>

type_synonym lv_color_t = "32 word"

text \<open>Pointers handed over by the library and handles returned by SDL; 0 is \<open>NULL\<close>.\<close>

type_synonym addr = nat

definition NULL :: addr where
  "NULL = 0"

record lv_area_t =
  x1 :: lv_coord_t
  y1 :: lv_coord_t
  x2 :: lv_coord_t
  y2 :: lv_coord_t

record lv_disp_drv_t =
  hor_res :: lv_coord_t
  ver_res :: lv_coord_t
  rotated :: nat

text \<open>
  \<open>monitor_t\<close>. The source has \<open>tft_fb_act\<close> when \<open>MONITOR_DOUBLE_BUFFERED\<close> is set
  and \<open>tft_fb\<close> otherwise; the record has both, and every function touches only the
  member that exists in its configuration.
\<close>

record monitor_t =
  window :: addr
  renderer :: addr
  texture :: addr
  sdl_refr_qry :: bool
  tft_fb_act :: addr
  tft_fb :: "uint32_t list"

datatype monitor_id = Monitor | Monitor2

datatype SDL_WindowEventID =
    SDL_WINDOWEVENT_TAKE_FOCUS
  | SDL_WINDOWEVENT_EXPOSED
  | SDL_WINDOWEVENT_CLOSE
  | SDL_WINDOWEVENT_OTHER nat

datatype SDL_Event =
    SDL_WINDOWEVENT SDL_WindowEventID
  | SDL_QUIT
  | SDL_OTHER_EVENT nat

text \<open>The second argument of \<open>SDL_UpdateTexture\<close>: the array read, or the pointer passed.\<close>

datatype pixels = Pixel_data "uint32_t list" | Pixel_ptr addr

text \<open>
  What the driver does to the outside, in program order: the calls into the rendering
  library, into SDL, into the input drivers and into libc, and the stores to the
  \<open>volatile\<close> flags.
\<close>

datatype event =
    Lv_disp_flush_ready lv_disp_drv_t
  | Store_sdl_refr_qry monitor_id bool
  | Store_sdl_inited bool
  | Store_sdl_quit_qry bool
  | SDL_Init
  | SDL_SetEventFilter
  | SDL_CreateWindow int int
  | SDL_CreateRenderer addr bool
  | SDL_CreateTexture addr int int
  | SDL_SetTextureBlendMode addr
  | SDL_UpdateTexture addr pixels int
  | SDL_RenderClear addr
  | SDL_RenderCopy addr addr
  | SDL_RenderPresent addr
  | SDL_GetWindowPosition addr
  | SDL_SetWindowPosition addr int int
  | SDL_DestroyTexture addr
  | SDL_DestroyRenderer addr
  | SDL_DestroyWindow addr
  | SDL_Quit
  | SDL_Delay nat
  | Mouse_handler SDL_Event
  | Mousewheel_handler SDL_Event
  | Keyboard_handler SDL_Event
  | Exit int

text \<open>Undefined behaviour of the C program: an access outside of an array.\<close>

datatype fault = Write_out_of_bounds int | Read_out_of_bounds nat

record config =
  MONITOR_HOR_RES :: int
  MONITOR_VER_RES :: int
  LV_HOR_RES_MAX :: nat
  LV_VER_RES_MAX :: nat
  MONITOR_ZOOM :: int
  MONITOR_DOUBLE_BUFFERED :: bool
  MONITOR_DUAL :: bool
  MONITOR_VIRTUAL_MACHINE :: bool
  MONITOR_APPLE :: bool
  MONITOR_EMSCRIPTEN :: bool
  LV_COLOR_DEPTH :: nat
  lv_color_to32 :: "lv_color_t \<Rightarrow> uint32_t"
  USE_MOUSE :: bool
  USE_MOUSEWHEEL :: bool
  USE_KEYBOARD :: bool
  SDL_VERSION_ATLEAST_2_0_5 :: bool

text \<open>
  The globals of the file (\<open>monitor\<close>, \<open>monitor2\<close>, \<open>sdl_inited\<close>, \<open>sdl_quit_qry\<close>)
  and what the model keeps of the outside: the trace of events so far, the events the
  operating system will deliver to SDL (one batch per drain of the queue), the number
  of handles SDL has given out, and the window positions SDL reports.
\<close>

record world =
  monitor :: monitor_t
  monitor2 :: monitor_t
  sdl_inited :: bool
  sdl_quit_qry :: bool
  trace :: "event list"
  sdl_pending :: "SDL_Event list list"
  sdl_handles :: nat
  sdl_window_pos :: "addr \<Rightarrow> int \<times> int"

definition call :: "event \<Rightarrow> world \<Rightarrow> world" where
  "call e w = w\<lparr>trace := trace w @ [e]\<rparr>"

definition get_monitor :: "monitor_id \<Rightarrow> world \<Rightarrow> monitor_t" where
  "get_monitor m w = (case m of Monitor \<Rightarrow> monitor w | Monitor2 \<Rightarrow> monitor2 w)"

definition put_monitor :: "monitor_id \<Rightarrow> monitor_t \<Rightarrow> world \<Rightarrow> world" where
  "put_monitor m v w = (case m of Monitor \<Rightarrow> w\<lparr>monitor := v\<rparr> | Monitor2 \<Rightarrow> w\<lparr>monitor2 := v\<rparr>)"

text \<open>\<open>m->sdl_refr_qry = b\<close>: a volatile store.\<close>

definition set_sdl_refr_qry :: "monitor_id \<Rightarrow> bool \<Rightarrow> world \<Rightarrow> world" where
  "set_sdl_refr_qry m b w =
     call (Store_sdl_refr_qry m b) (put_monitor m ((get_monitor m w)\<lparr>sdl_refr_qry := b\<rparr>) w)"

subsection \<open>The flush callbacks\<close>

text \<open>
  Modelled from the spec: \<open>lv_area_get_width\<close> is an inline function of the rendering
  library and is not part of the driver's file. The spec's rectangle is
  "left, top, right, bottom inclusive", so a row of it holds \<open>x2 - x1 + 1\<close> pixels. The
  function returns an \<open>lv_coord_t\<close>; the model narrows the number to the 16 bits of
  the library's default coordinate type, which changes nothing for a rectangle of at
  most 32767 columns.
\<close>

definition to_int16 :: "int \<Rightarrow> int" where
  "to_int16 v = (v + 32768) mod 65536 - 32768"

definition lv_area_get_width :: "lv_area_t \<Rightarrow> lv_coord_t" where
  "lv_area_get_width area_p = to_int16 (x2 area_p - x1 area_p + 1)"

text \<open>\<open>uint32_t w = lv_area_get_width(area)\<close>: the conversion of an int to \<open>uint32_t\<close>.\<close>

definition to_uint32 :: "int \<Rightarrow> nat" where
  "to_uint32 v = nat (v mod 4294967296)"

text \<open>
  \<open>tft_fb[i] = v\<close>. The index is an \<open>int\<close> expression of the source; outside of the
  array the behaviour is undefined.
\<close>

definition store_fb :: "uint32_t list \<Rightarrow> int \<Rightarrow> uint32_t \<Rightarrow> fault + uint32_t list" where
  "store_fb fb i v =
     (if 0 \<le> i \<and> i < int (length fb) then Inr (fb[nat i := v]) else Inl (Write_out_of_bounds i))"

text \<open>
  \<open>*color_p\<close>: the pixel source is the array \<open>src\<close> the library passes, and \<open>p\<close> the
  number of pixels \<open>color_p\<close> has advanced.
\<close>

definition load_color :: "lv_color_t list \<Rightarrow> nat \<Rightarrow> fault + lv_color_t" where
  "load_color src p = (if p < length src then Inr (src ! p) else Inl (Read_out_of_bounds p))"

text \<open>
  \<open>memcpy(&tft_fb[d], color_p, n * sizeof(lv_color_t))\<close> with 4 byte pixels: \<open>n\<close>
  pixels from \<open>src\<close> at \<open>p\<close> to \<open>fb\<close> at \<open>d\<close>. Both ranges must lie in their arrays.
\<close>

definition memcpy :: "uint32_t list \<Rightarrow> int \<Rightarrow> lv_color_t list \<Rightarrow> nat \<Rightarrow> nat \<Rightarrow> fault + uint32_t list" where
  "memcpy fb d src p n =
     (if d < 0 \<or> int (length fb) < d + int n then Inl (Write_out_of_bounds d)
      else if length src < p + n then Inl (Read_out_of_bounds p)
      else Inr (take (nat d) fb @ take n (drop p src) @ drop (nat d + n) fb))"

text \<open>
  The inner loop of the conversion path:
  \<^verbatim>\<open>for(x = area->x1; x <= area->x2; x++) {
      monitor.tft_fb[y * MONITOR_HOR_RES + x] = lv_color_to32(*color_p);
      color_p++;
  }\<close>
  The result is the buffer and the advanced \<open>color_p\<close>.
\<close>

function flush_px_row ::
  "config \<Rightarrow> lv_area_t \<Rightarrow> int \<Rightarrow> int \<Rightarrow> lv_color_t list \<Rightarrow> nat \<Rightarrow> uint32_t list
     \<Rightarrow> fault + (uint32_t list \<times> nat)" where
  "flush_px_row cfg area y x src p fb =
     (if x \<le> x2 area then
        (case load_color src p of
           Inl e \<Rightarrow> Inl e
         | Inr c \<Rightarrow>
            (case store_fb fb (y * MONITOR_HOR_RES cfg + x) (lv_color_to32 cfg c) of
               Inl e \<Rightarrow> Inl e
             | Inr fb' \<Rightarrow> flush_px_row cfg area y (x + 1) src (p + 1) fb'))
      else Inr (fb, p))"
  by pat_completeness auto
termination
  by (relation "measure (\<lambda>(cfg, area, y, x, src, p, fb). nat (x2 area + 1 - x))") auto

text \<open>The outer loop of the conversion path: \<^verbatim>\<open>for(y = area->y1; y <= area->y2; y++)\<close>.\<close>

function flush_px_rows ::
  "config \<Rightarrow> lv_area_t \<Rightarrow> int \<Rightarrow> lv_color_t list \<Rightarrow> nat \<Rightarrow> uint32_t list
     \<Rightarrow> fault + (uint32_t list \<times> nat)" where
  "flush_px_rows cfg area y src p fb =
     (if y \<le> y2 area then
        (case flush_px_row cfg area y (x1 area) src p fb of
           Inl e \<Rightarrow> Inl e
         | Inr (fb', p') \<Rightarrow> flush_px_rows cfg area (y + 1) src p' fb')
      else Inr (fb, p))"
  by pat_completeness auto
termination
  by (relation "measure (\<lambda>(cfg, area, y, src, p, fb). nat (y2 area + 1 - y))") auto

text \<open>
  The loop of the bulk path:
  \<^verbatim>\<open>for(y = area->y1; y <= area->y2 && y < MONITOR_VER_RES; y++) {
      memcpy(&monitor.tft_fb[y * MONITOR_HOR_RES + area->x1], color_p, w * sizeof(lv_color_t));
      color_p += w;
  }\<close>
\<close>

function flush_bulk_rows ::
  "config \<Rightarrow> lv_area_t \<Rightarrow> nat \<Rightarrow> int \<Rightarrow> lv_color_t list \<Rightarrow> nat \<Rightarrow> uint32_t list
     \<Rightarrow> fault + (uint32_t list \<times> nat)" where
  "flush_bulk_rows cfg area w y src p fb =
     (if y \<le> y2 area \<and> y < MONITOR_VER_RES cfg then
        (case memcpy fb (y * MONITOR_HOR_RES cfg + x1 area) src p w of
           Inl e \<Rightarrow> Inl e
         | Inr fb' \<Rightarrow> flush_bulk_rows cfg area w (y + 1) src (p + w) fb')
      else Inr (fb, p))"
  by pat_completeness auto
termination
  by (relation "measure (\<lambda>(cfg, area, w, y, src, p, fb). nat (y2 area + 1 - y))") auto

text \<open>
  The copy of the single-buffered configuration: the conversion path when
  \<open>LV_COLOR_DEPTH\<close> is neither 24 nor 32, the bulk path otherwise.
\<close>

definition flush_copy :: "config \<Rightarrow> lv_area_t \<Rightarrow> lv_color_t list \<Rightarrow> uint32_t list \<Rightarrow> fault + uint32_t list" where
  "flush_copy cfg area src fb =
     (if LV_COLOR_DEPTH cfg \<noteq> 24 \<and> LV_COLOR_DEPTH cfg \<noteq> 32 then
        map_sum id fst (flush_px_rows cfg area (y1 area) src 0 fb)
      else
        (let w = to_uint32 (lv_area_get_width area)
         in map_sum id fst (flush_bulk_rows cfg area w (y1 area) src 0 fb)))"

text \<open>The test "the area is out the screen" at the head of both callbacks.\<close>

definition out_of_screen :: "lv_disp_drv_t \<Rightarrow> lv_area_t \<Rightarrow> bool" where
  "out_of_screen disp_drv area =
     (let hres = (if rotated disp_drv = 0 then hor_res disp_drv else ver_res disp_drv);
          vres = (if rotated disp_drv = 0 then ver_res disp_drv else hor_res disp_drv)
      in x2 area < 0 \<or> y2 area < 0 \<or> x1 area > hres - 1 \<or> y1 area > vres - 1)"

text \<open>
  \<open>monitor_flush(disp_drv, area, color_p)\<close>. The pointer \<open>color_p\<close> is given twice:
  by its value and by the array \<open>src\<close> it points to.
\<close>

definition monitor_flush ::
  "config \<Rightarrow> lv_disp_drv_t \<Rightarrow> lv_area_t \<Rightarrow> addr \<Rightarrow> lv_color_t list \<Rightarrow> world \<Rightarrow> fault + world" where
  "monitor_flush cfg disp_drv area color_p src w =
     (if out_of_screen disp_drv area then Inr (call (Lv_disp_flush_ready disp_drv) w)
      else if MONITOR_DOUBLE_BUFFERED cfg then
        (let w = w\<lparr>monitor := (monitor w)\<lparr>tft_fb_act := color_p\<rparr>\<rparr>;
             w = set_sdl_refr_qry Monitor True w
         in Inr (call (Lv_disp_flush_ready disp_drv) w))
      else
        (case flush_copy cfg area src (tft_fb (monitor w)) of
           Inl e \<Rightarrow> Inl e
         | Inr fb \<Rightarrow>
            (let w = w\<lparr>monitor := (monitor w)\<lparr>tft_fb := fb\<rparr>\<rparr>;
                 w = set_sdl_refr_qry Monitor True w
             in Inr (call (Lv_disp_flush_ready disp_drv) w))))"

text \<open>\<open>monitor_flush2\<close>: the same text on \<open>monitor2\<close>, compiled when \<open>MONITOR_DUAL\<close> is set.\<close>

definition monitor_flush2 ::
  "config \<Rightarrow> lv_disp_drv_t \<Rightarrow> lv_area_t \<Rightarrow> addr \<Rightarrow> lv_color_t list \<Rightarrow> world \<Rightarrow> fault + world" where
  "monitor_flush2 cfg disp_drv area color_p src w =
     (if out_of_screen disp_drv area then Inr (call (Lv_disp_flush_ready disp_drv) w)
      else if MONITOR_DOUBLE_BUFFERED cfg then
        (let w = w\<lparr>monitor2 := (monitor2 w)\<lparr>tft_fb_act := color_p\<rparr>\<rparr>;
             w = set_sdl_refr_qry Monitor2 True w
         in Inr (call (Lv_disp_flush_ready disp_drv) w))
      else
        (case flush_copy cfg area src (tft_fb (monitor2 w)) of
           Inl e \<Rightarrow> Inl e
         | Inr fb \<Rightarrow>
            (let w = w\<lparr>monitor2 := (monitor2 w)\<lparr>tft_fb := fb\<rparr>\<rparr>;
                 w = set_sdl_refr_qry Monitor2 True w
             in Inr (call (Lv_disp_flush_ready disp_drv) w))))"

subsection \<open>Windows and presentation\<close>

definition SDL_REFR_PERIOD :: nat where
  "SDL_REFR_PERIOD = 50"

text \<open>
  The SDL calls that create an object return its handle. SDL is outside of the file:
  the model numbers the handles it gives out from 1, and has no failing creation.
\<close>

definition sdl_create :: "event \<Rightarrow> world \<Rightarrow> addr \<times> world" where
  "sdl_create e w = (Suc (sdl_handles w), call e (w\<lparr>sdl_handles := Suc (sdl_handles w)\<rparr>))"

text \<open>\<open>memset(m->tft_fb, 0x44, n * sizeof(uint32_t))\<close>.\<close>

definition memset_fb :: "uint32_t list \<Rightarrow> int \<Rightarrow> fault + uint32_t list" where
  "memset_fb fb n =
     (if n < 0 \<or> int (length fb) < n then Inl (Write_out_of_bounds n)
      else Inr (replicate (nat n) 0x44444444 @ drop (nat n) fb))"

text \<open>\<open>window_create(m)\<close>, with \<open>m\<close> the address of \<open>monitor\<close> or of \<open>monitor2\<close>.\<close>

definition window_create :: "config \<Rightarrow> monitor_id \<Rightarrow> world \<Rightarrow> fault + world" where
  "window_create cfg m w =
     (let (h, w) = sdl_create (SDL_CreateWindow (MONITOR_HOR_RES cfg * MONITOR_ZOOM cfg)
                                                (MONITOR_VER_RES cfg * MONITOR_ZOOM cfg)) w;
          w = put_monitor m ((get_monitor m w)\<lparr>window := h\<rparr>) w;
          (h, w) = sdl_create (SDL_CreateRenderer (window (get_monitor m w))
                                 (MONITOR_VIRTUAL_MACHINE cfg \<or> MONITOR_EMSCRIPTEN cfg)) w;
          w = put_monitor m ((get_monitor m w)\<lparr>renderer := h\<rparr>) w;
          (h, w) = sdl_create (SDL_CreateTexture (renderer (get_monitor m w))
                                 (MONITOR_HOR_RES cfg) (MONITOR_VER_RES cfg)) w;
          w = put_monitor m ((get_monitor m w)\<lparr>texture := h\<rparr>) w;
          w = call (SDL_SetTextureBlendMode (texture (get_monitor m w))) w
      in if MONITOR_DOUBLE_BUFFERED cfg then
           (let w = call (SDL_UpdateTexture (texture (get_monitor m w))
                            (Pixel_ptr (tft_fb_act (get_monitor m w))) (MONITOR_HOR_RES cfg * 4)) w
            in Inr (set_sdl_refr_qry m True w))
         else
           (case memset_fb (tft_fb (get_monitor m w)) (MONITOR_HOR_RES cfg * MONITOR_VER_RES cfg) of
              Inl e \<Rightarrow> Inl e
            | Inr fb \<Rightarrow>
               (let w = put_monitor m ((get_monitor m w)\<lparr>tft_fb := fb\<rparr>) w
                in Inr (set_sdl_refr_qry m True w))))"

text \<open>\<open>window_update(m)\<close>.\<close>

definition window_update :: "config \<Rightarrow> monitor_id \<Rightarrow> world \<Rightarrow> world" where
  "window_update cfg m w =
     (if MONITOR_DOUBLE_BUFFERED cfg \<and> tft_fb_act (get_monitor m w) = NULL then w
      else
        (let w = (if \<not> MONITOR_DOUBLE_BUFFERED cfg then
                    call (SDL_UpdateTexture (texture (get_monitor m w))
                            (Pixel_data (tft_fb (get_monitor m w))) (MONITOR_HOR_RES cfg * 4)) w
                  else
                    call (SDL_UpdateTexture (texture (get_monitor m w))
                            (Pixel_ptr (tft_fb_act (get_monitor m w))) (MONITOR_HOR_RES cfg * 4)) w);
             w = call (SDL_RenderClear (renderer (get_monitor m w))) w;
             w = call (SDL_RenderCopy (renderer (get_monitor m w)) (texture (get_monitor m w))) w
         in call (SDL_RenderPresent (renderer (get_monitor m w))) w))"

text \<open>
  \<open>quit_filter\<close>, the event filter installed by \<open>monitor_sdl_init\<close>. SDL calls it on
  every event that enters its queue. It always returns 1 (the event stays in the queue).
\<close>

definition quit_filter :: "SDL_Event \<Rightarrow> world \<Rightarrow> world" where
  "quit_filter ev w =
     (case ev of
        SDL_WINDOWEVENT we \<Rightarrow>
          (if we = SDL_WINDOWEVENT_CLOSE then call (Store_sdl_quit_qry True) (w\<lparr>sdl_quit_qry := True\<rparr>)
           else w)
      | SDL_QUIT \<Rightarrow> call (Store_sdl_quit_qry True) (w\<lparr>sdl_quit_qry := True\<rparr>)
      | SDL_OTHER_EVENT _ \<Rightarrow> w)"

text \<open>The body of \<^verbatim>\<open>while(SDL_PollEvent(&event))\<close> in \<open>monitor_sdl_refr_core\<close>.\<close>

definition handle_event :: "config \<Rightarrow> SDL_Event \<Rightarrow> world \<Rightarrow> world" where
  "handle_event cfg ev w =
     (let w = (if USE_MOUSE cfg then call (Mouse_handler ev) w else w);
          w = (if USE_MOUSEWHEEL cfg then call (Mousewheel_handler ev) w else w);
          w = (if USE_KEYBOARD cfg then call (Keyboard_handler ev) w else w)
      in case ev of
           SDL_WINDOWEVENT we \<Rightarrow>
             (if (we = SDL_WINDOWEVENT_TAKE_FOCUS \<and> SDL_VERSION_ATLEAST_2_0_5 cfg)
                 \<or> we = SDL_WINDOWEVENT_EXPOSED then
                (let w = window_update cfg Monitor w
                 in if MONITOR_DUAL cfg then window_update cfg Monitor2 w else w)
              else w)
         | _ \<Rightarrow> w)"

fun poll_events :: "config \<Rightarrow> SDL_Event list \<Rightarrow> world \<Rightarrow> world" where
  "poll_events cfg [] w = w"
| "poll_events cfg (ev # evs) w = poll_events cfg evs (handle_event cfg ev w)"

fun sdl_filter_events :: "SDL_Event list \<Rightarrow> world \<Rightarrow> world" where
  "sdl_filter_events [] w = w"
| "sdl_filter_events (ev # evs) w = sdl_filter_events evs (quit_filter ev w)"

text \<open>
  One drain of the event queue: SDL takes the next batch of events from the operating
  system, passes each through the filter, and \<open>SDL_PollEvent\<close> then hands them to the
  loop one by one until the queue is empty.
\<close>

definition sdl_poll_loop :: "config \<Rightarrow> world \<Rightarrow> world" where
  "sdl_poll_loop cfg w =
     (case sdl_pending w of
        [] \<Rightarrow> w
      | batch # rest \<Rightarrow> poll_events cfg batch (sdl_filter_events batch (w\<lparr>sdl_pending := rest\<rparr>)))"

definition monitor_sdl_refr_core :: "config \<Rightarrow> world \<Rightarrow> world" where
  "monitor_sdl_refr_core cfg w =
     (let w = (if sdl_refr_qry (monitor w) \<noteq> False then
                 window_update cfg Monitor (set_sdl_refr_qry Monitor False w)
               else w);
          w = (if MONITOR_DUAL cfg \<and> sdl_refr_qry (monitor2 w) \<noteq> False then
                 window_update cfg Monitor2 (set_sdl_refr_qry Monitor2 False w)
               else w);
          w = (if \<not> MONITOR_APPLE cfg \<and> \<not> MONITOR_EMSCRIPTEN cfg then sdl_poll_loop cfg w else w)
      in call (SDL_Delay SDL_REFR_PERIOD) w)"

subsection \<open>Start and end of the SDL thread\<close>

text \<open>
  \<open>monitor_init\<close> starts the thread and waits for \<open>sdl_inited\<close>; it is left out, the
  model has one thread of control.
\<close>

text \<open>Division of C on \<open>int\<close>: towards zero.\<close>

definition c_div :: "int \<Rightarrow> int \<Rightarrow> int" where
  "c_div a b = sgn a * sgn b * (\<bar>a\<bar> div \<bar>b\<bar>)"

definition monitor_sdl_init :: "config \<Rightarrow> world \<Rightarrow> fault + world" where
  "monitor_sdl_init cfg w =
     (let w = call SDL_Init w;
          w = call SDL_SetEventFilter w
      in case window_create cfg Monitor w of
           Inl e \<Rightarrow> Inl e
         | Inr w \<Rightarrow>
            if MONITOR_DUAL cfg then
              (case window_create cfg Monitor2 w of
                 Inl e \<Rightarrow> Inl e
               | Inr w \<Rightarrow>
                  (let w = call (SDL_GetWindowPosition (window (monitor2 w))) w;
                       (x, y) = sdl_window_pos w (window (monitor2 w));
                       w = call (SDL_SetWindowPosition (window (monitor w))
                                   (x + c_div (MONITOR_HOR_RES cfg) 2 + 10) y) w;
                       w = call (SDL_SetWindowPosition (window (monitor2 w))
                                   (x - c_div (MONITOR_HOR_RES cfg) 2 - 10) y) w
                   in Inr (call (Store_sdl_inited True) (w\<lparr>sdl_inited := True\<rparr>))))
            else Inr (call (Store_sdl_inited True) (w\<lparr>sdl_inited := True\<rparr>)))"

definition monitor_sdl_clean_up :: "config \<Rightarrow> world \<Rightarrow> world" where
  "monitor_sdl_clean_up cfg w =
     (let w = call (SDL_DestroyTexture (texture (monitor w))) w;
          w = call (SDL_DestroyRenderer (renderer (monitor w))) w;
          w = call (SDL_DestroyWindow (window (monitor w))) w;
          w = (if MONITOR_DUAL cfg then
                 (let w = call (SDL_DestroyTexture (texture (monitor2 w))) w;
                      w = call (SDL_DestroyRenderer (renderer (monitor2 w))) w
                  in call (SDL_DestroyWindow (window (monitor2 w))) w)
               else w)
      in call SDL_Quit w)"

text \<open>
  \<^verbatim>\<open>while(sdl_quit_qry == false) { monitor_sdl_refr_core(); }\<close>
  The loop need not end: it runs on fuel, one unit per cycle, and \<open>None\<close> says that the
  fuel did not suffice.
\<close>

fun refr_loop :: "config \<Rightarrow> nat \<Rightarrow> world \<Rightarrow> world option" where
  "refr_loop cfg fuel w =
     (if sdl_quit_qry w = False then
        (case fuel of
           0 \<Rightarrow> None
         | Suc fuel' \<Rightarrow> refr_loop cfg fuel' (monitor_sdl_refr_core cfg w))
      else Some w)"

text \<open>
  \<open>monitor_sdl_refr_thread\<close>. The process ends in \<open>exit(0)\<close>, the last event of the
  trace; the \<open>return 0\<close> after it is never reached.
\<close>

definition monitor_sdl_refr_thread :: "config \<Rightarrow> nat \<Rightarrow> world \<Rightarrow> (fault + world) option" where
  "monitor_sdl_refr_thread cfg fuel w =
     (case (if \<not> MONITOR_APPLE cfg then monitor_sdl_init cfg w else Inr w) of
        Inl e \<Rightarrow> Some (Inl e)
      | Inr w \<Rightarrow>
         (case refr_loop cfg fuel w of
            None \<Rightarrow> None
          | Some w \<Rightarrow> Some (Inr (call (Exit 0) (monitor_sdl_clean_up cfg w)))))"

subsection \<open>Example configurations and states\<close>

text \<open>
  The configuration of the spec's scenarios (a single 480 by 320 surface with an owned
  buffer of 32 bit pixels), a 4 by 2 surface on which a whole buffer can be written
  out, the same surface with a buffer declared for 3 rows (\<open>tft_fb\<close> has
  \<open>LV_HOR_RES_MAX * LV_VER_RES_MAX\<close> cells, the loops count in \<open>MONITOR_HOR_RES\<close> and
  \<open>MONITOR_VER_RES\<close>), and a state before \<open>monitor_sdl_init\<close> with owned buffer \<open>fb\<close>.
\<close>

definition example_cfg :: config where
  "example_cfg = \<lparr>MONITOR_HOR_RES = 480, MONITOR_VER_RES = 320, LV_HOR_RES_MAX = 480,
     LV_VER_RES_MAX = 320, MONITOR_ZOOM = 1, MONITOR_DOUBLE_BUFFERED = False,
     MONITOR_DUAL = False, MONITOR_VIRTUAL_MACHINE = False, MONITOR_APPLE = False,
     MONITOR_EMSCRIPTEN = False, LV_COLOR_DEPTH = 32, lv_color_to32 = (\<lambda>c. c),
     USE_MOUSE = True, USE_MOUSEWHEEL = True, USE_KEYBOARD = True,
     SDL_VERSION_ATLEAST_2_0_5 = True\<rparr>"

definition small_cfg :: config where
  "small_cfg = example_cfg\<lparr>MONITOR_HOR_RES := 4, MONITOR_VER_RES := 2, LV_HOR_RES_MAX := 4,
     LV_VER_RES_MAX := 2\<rparr>"

definition tall_cfg :: config where
  "tall_cfg = small_cfg\<lparr>LV_VER_RES_MAX := 3\<rparr>"

definition example_drv :: lv_disp_drv_t where
  "example_drv = \<lparr>hor_res = 480, ver_res = 320, rotated = 0\<rparr>"

definition small_drv :: lv_disp_drv_t where
  "small_drv = \<lparr>hor_res = 4, ver_res = 2, rotated = 0\<rparr>"

definition blank_monitor :: "uint32_t list \<Rightarrow> monitor_t" where
  "blank_monitor fb = \<lparr>window = NULL, renderer = NULL, texture = NULL, sdl_refr_qry = False,
     tft_fb_act = NULL, tft_fb = fb\<rparr>"

definition start_world :: "uint32_t list \<Rightarrow> world" where
  "start_world fb = \<lparr>monitor = blank_monitor fb, monitor2 = blank_monitor fb, sdl_inited = False,
     sdl_quit_qry = False, trace = [], sdl_pending = [], sdl_handles = 0,
     sdl_window_pos = (\<lambda>h. (0, 0))\<rparr>"

text \<open>The 480 by 320 buffer of the scenarios, all cells 0.\<close>

definition solid_fb :: "uint32_t list" where
  "solid_fb = replicate 153600 0"

text \<open>The owned buffer of \<open>monitor\<close> in the result of a flush, or its fault.\<close>

definition flushed_fb :: "fault + world \<Rightarrow> fault + uint32_t list" where
  "flushed_fb r = map_sum id (\<lambda>w. tft_fb (monitor w)) r"

subsection \<open>Auxiliary notions\<close>

text \<open>
  The effect of writing the values \<open>vs\<close> into a buffer from cell \<open>d\<close> on, and of
  writing \<open>m\<close> rows of \<open>n\<close> source pixels each, row \<open>y\<close> starting at cell
  \<open>y * H + xa\<close>. The loops of the flush are compared with these.
\<close>

definition row_write :: "uint32_t list \<Rightarrow> nat \<Rightarrow> uint32_t list \<Rightarrow> uint32_t list" where
  "row_write fb d vs = take d fb @ vs @ drop (d + length vs) fb"

fun write_rows ::
  "(lv_color_t \<Rightarrow> uint32_t) \<Rightarrow> nat \<Rightarrow> nat \<Rightarrow> nat \<Rightarrow> nat \<Rightarrow> nat \<Rightarrow> lv_color_t list \<Rightarrow> nat
     \<Rightarrow> uint32_t list \<Rightarrow> uint32_t list" where
  "write_rows f H xa n 0 y src p fb = fb"
| "write_rows f H xa n (Suc m) y src p fb =
     write_rows f H xa n m (Suc y) src (p + n)
       (row_write fb (y * H + xa) (map f (take n (drop p src))))"

text \<open>
  The events of one call of \<open>window_update\<close> on a surface with the members \<open>m\<close>, of
  the input handlers on one event, and of the body of the event loop on one event. An
  event is a quit request for \<open>quit_filter\<close>, or an exposure for the event loop.
\<close>

definition present_events :: "config \<Rightarrow> monitor_t \<Rightarrow> event list" where
  "present_events cfg m =
     (if MONITOR_DOUBLE_BUFFERED cfg \<and> tft_fb_act m = NULL then []
      else [SDL_UpdateTexture (texture m)
              (if MONITOR_DOUBLE_BUFFERED cfg then Pixel_ptr (tft_fb_act m) else Pixel_data (tft_fb m))
              (MONITOR_HOR_RES cfg * 4),
            SDL_RenderClear (renderer m),
            SDL_RenderCopy (renderer m) (texture m),
            SDL_RenderPresent (renderer m)])"

definition input_events :: "config \<Rightarrow> SDL_Event \<Rightarrow> event list" where
  "input_events cfg ev =
     (if USE_MOUSE cfg then [Mouse_handler ev] else [])
     @ (if USE_MOUSEWHEEL cfg then [Mousewheel_handler ev] else [])
     @ (if USE_KEYBOARD cfg then [Keyboard_handler ev] else [])"

definition is_exposed :: "config \<Rightarrow> SDL_Event \<Rightarrow> bool" where
  "is_exposed cfg ev \<longleftrightarrow>
     ev = SDL_WINDOWEVENT SDL_WINDOWEVENT_EXPOSED
     \<or> (ev = SDL_WINDOWEVENT SDL_WINDOWEVENT_TAKE_FOCUS \<and> SDL_VERSION_ATLEAST_2_0_5 cfg)"

definition is_quit :: "SDL_Event \<Rightarrow> bool" where
  "is_quit ev \<longleftrightarrow> ev = SDL_WINDOWEVENT SDL_WINDOWEVENT_CLOSE \<or> ev = SDL_QUIT"

definition filter_events :: "SDL_Event \<Rightarrow> event list" where
  "filter_events ev = (if is_quit ev then [Store_sdl_quit_qry True] else [])"

definition event_events :: "config \<Rightarrow> monitor_t \<Rightarrow> monitor_t \<Rightarrow> SDL_Event \<Rightarrow> event list" where
  "event_events cfg m m2 ev =
     input_events cfg ev
     @ (if is_exposed cfg ev then
          present_events cfg m @ (if MONITOR_DUAL cfg then present_events cfg m2 else [])
        else [])"

text \<open>The events of one cycle, in order: \<open>cycle_events\<close>.\<close>

definition polling :: "config \<Rightarrow> bool" where
  "polling cfg \<longleftrightarrow> \<not> MONITOR_APPLE cfg \<and> \<not> MONITOR_EMSCRIPTEN cfg"

definition cycle_events :: "config \<Rightarrow> world \<Rightarrow> event list" where
  "cycle_events cfg w =
     (if sdl_refr_qry (monitor w)
      then Store_sdl_refr_qry Monitor False # present_events cfg (monitor w) else [])
     @ (if MONITOR_DUAL cfg \<and> sdl_refr_qry (monitor2 w)
        then Store_sdl_refr_qry Monitor2 False # present_events cfg (monitor2 w) else [])
     @ (if polling cfg then
          (case sdl_pending w of
             [] \<Rightarrow> []
           | batch # rest \<Rightarrow>
               concat (map filter_events batch)
               @ concat (map (event_events cfg (monitor w) (monitor2 w)) batch))
        else [])
     @ [SDL_Delay SDL_REFR_PERIOD]"

text \<open>
  The events of a cycle after the part of \<open>monitor\<close>: the part of \<open>monitor2\<close>, the
  events of the batch, and the delay.
\<close>

definition cycle_tail :: "config \<Rightarrow> world \<Rightarrow> event list" where
  "cycle_tail cfg w =
     (if MONITOR_DUAL cfg \<and> sdl_refr_qry (monitor2 w)
      then Store_sdl_refr_qry Monitor2 False # present_events cfg (monitor2 w) else [])
     @ (if polling cfg then
          (case sdl_pending w of
             [] \<Rightarrow> []
           | batch # rest \<Rightarrow>
               concat (map filter_events batch)
               @ concat (map (event_events cfg (monitor w) (monitor2 w)) batch))
        else [])
     @ [SDL_Delay SDL_REFR_PERIOD]"

text \<open>The SDL calls that draw, and projections of the result of a flush.\<close>

fun is_render :: "event \<Rightarrow> bool" where
  "is_render (SDL_UpdateTexture t px n) = True"
| "is_render (SDL_RenderClear r) = True"
| "is_render (SDL_RenderCopy r t) = True"
| "is_render (SDL_RenderPresent r) = True"
| "is_render e = False"

definition on_result :: "(world \<Rightarrow> 'a) \<Rightarrow> fault + world \<Rightarrow> fault + 'a" where
  "on_result f r = map_sum id f r"

definition and_then :: "fault + world \<Rightarrow> (world \<Rightarrow> fault + world) \<Rightarrow> fault + world" where
  "and_then r f = (case r of Inl e \<Rightarrow> Inl e | Inr w \<Rightarrow> f w)"

definition double_cfg :: config where
  "double_cfg = small_cfg\<lparr>MONITOR_DOUBLE_BUFFERED := True\<rparr>"

text \<open>The calls of the teardown, and those \<open>monitor_sdl_clean_up\<close> makes.\<close>

fun is_teardown :: "event \<Rightarrow> bool" where
  "is_teardown (SDL_DestroyTexture t) = True"
| "is_teardown (SDL_DestroyRenderer r) = True"
| "is_teardown (SDL_DestroyWindow h) = True"
| "is_teardown SDL_Quit = True"
| "is_teardown (Exit c) = True"
| "is_teardown e = False"

definition teardown_events :: "config \<Rightarrow> world \<Rightarrow> event list" where
  "teardown_events cfg w =
     [SDL_DestroyTexture (texture (monitor w)), SDL_DestroyRenderer (renderer (monitor w)),
      SDL_DestroyWindow (window (monitor w))]
     @ (if MONITOR_DUAL cfg then
          [SDL_DestroyTexture (texture (monitor2 w)), SDL_DestroyRenderer (renderer (monitor2 w)),
           SDL_DestroyWindow (window (monitor2 w))]
        else [])
     @ [SDL_Quit]"

section \<open>Properties\<close>

subsection \<open>Simplification rules of the state\<close>

lemma call_simps [simp]:
  "monitor (call e w) = monitor w" "monitor2 (call e w) = monitor2 w"
  "trace (call e w) = trace w @ [e]" "sdl_quit_qry (call e w) = sdl_quit_qry w"
  "sdl_pending (call e w) = sdl_pending w" "sdl_inited (call e w) = sdl_inited w"
  "sdl_handles (call e w) = sdl_handles w" "sdl_window_pos (call e w) = sdl_window_pos w"
  by (simp_all add: call_def)

lemma set_sdl_refr_qry_simps [simp]:
  "trace (set_sdl_refr_qry m b w) = trace w @ [Store_sdl_refr_qry m b]"
  "monitor (set_sdl_refr_qry Monitor b w) = (monitor w)\<lparr>sdl_refr_qry := b\<rparr>"
  "monitor2 (set_sdl_refr_qry Monitor b w) = monitor2 w"
  "monitor (set_sdl_refr_qry Monitor2 b w) = monitor w"
  "monitor2 (set_sdl_refr_qry Monitor2 b w) = (monitor2 w)\<lparr>sdl_refr_qry := b\<rparr>"
  "sdl_quit_qry (set_sdl_refr_qry m b w) = sdl_quit_qry w"
  "sdl_pending (set_sdl_refr_qry m b w) = sdl_pending w"
  "sdl_inited (set_sdl_refr_qry m b w) = sdl_inited w"
  "sdl_handles (set_sdl_refr_qry m b w) = sdl_handles w"
  "sdl_window_pos (set_sdl_refr_qry m b w) = sdl_window_pos w"
  by (simp_all add: set_sdl_refr_qry_def put_monitor_def get_monitor_def split: monitor_id.splits)

subsection \<open>The copy loops\<close>

lemma row_write_Nil [simp]: "row_write fb d [] = fb"
  by (simp add: row_write_def)

lemma length_row_write [simp]:
  "d + length vs \<le> length fb \<Longrightarrow> length (row_write fb d vs) = length fb"
  by (simp add: row_write_def)

lemma nth_row_write:
  "d + length vs \<le> length fb \<Longrightarrow> k < length fb \<Longrightarrow>
   row_write fb d vs ! k = (if d \<le> k \<and> k < d + length vs then vs ! (k - d) else fb ! k)"
  by (auto simp: row_write_def nth_append)

lemma row_write_update:
  "d < length fb \<Longrightarrow> row_write (fb[d := v]) (Suc d) vs = row_write fb d (v # vs)"
  by (simp add: row_write_def take_Suc_conv_app_nth)

lemma take_drop_Cons:
  "p < length src \<Longrightarrow> 0 < n \<Longrightarrow> take n (drop p src) = src ! p # take (n - 1) (drop (Suc p) src)"
  by (cases n) (simp_all add: Cons_nth_drop_Suc [symmetric])

lemma memcpy_row_write:
  "0 \<le> d \<Longrightarrow> d + int n \<le> int (length fb) \<Longrightarrow> p + n \<le> length src \<Longrightarrow>
   memcpy fb d src p n = Inr (row_write fb (nat d) (take n (drop p src)))"
  by (simp add: memcpy_def row_write_def)

declare flush_px_row.simps [simp del] flush_px_rows.simps [simp del] flush_bulk_rows.simps [simp del]

lemma flush_px_row_in_range:
  "0 \<le> y * MONITOR_HOR_RES cfg + x \<Longrightarrow> x \<le> x2 area + 1 \<Longrightarrow>
   y * MONITOR_HOR_RES cfg + x2 area < int (length fb) \<Longrightarrow>
   p + nat (x2 area + 1 - x) \<le> length src \<Longrightarrow>
   flush_px_row cfg area y x src p fb =
     Inr (row_write fb (nat (y * MONITOR_HOR_RES cfg + x))
            (map (lv_color_to32 cfg) (take (nat (x2 area + 1 - x)) (drop p src))),
          p + nat (x2 area + 1 - x))"
proof (induction cfg area y x src p fb rule: flush_px_row.induct)
  case (1 cfg area y x src p fb)
  let ?i = "y * MONITOR_HOR_RES cfg + x"
  show ?case
  proof (cases "x \<le> x2 area")
    case False
    with "1.prems" have "x = x2 area + 1" by simp
    then show ?thesis by (subst flush_px_row.simps) simp
  next
    case True
    let ?n = "nat (x2 area + 1 - x)"
    from True "1.prems" have p: "p < length src" and n: "0 < ?n" by auto
    from True "1.prems" have i: "0 \<le> ?i" "?i < int (length fb)" by auto
    have ld: "load_color src p = Inr (src ! p)"
      using p by (simp add: load_color_def)
    let ?fb = "fb[nat ?i := lv_color_to32 cfg (src ! p)]"
    have st: "store_fb fb ?i (lv_color_to32 cfg (src ! p)) = Inr ?fb"
      using i by (simp add: store_fb_def)
    have n1: "nat (x2 area + 1 - (x + 1)) = ?n - 1" by simp
    have suc: "nat (y * MONITOR_HOR_RES cfg + (x + 1)) = Suc (nat ?i)" using i by simp
    have "flush_px_row cfg area y x src p fb = flush_px_row cfg area y (x + 1) src (p + 1) ?fb"
      using True ld st by (subst flush_px_row.simps) simp
    also have "\<dots> = Inr (row_write ?fb (nat (y * MONITOR_HOR_RES cfg + (x + 1)))
               (map (lv_color_to32 cfg) (take (nat (x2 area + 1 - (x + 1))) (drop (p + 1) src))),
             p + 1 + nat (x2 area + 1 - (x + 1)))"
      by (rule "1.IH" [OF True ld st]) (use True "1.prems" in \<open>auto simp: algebra_simps\<close>)
    also have "row_write ?fb (nat (y * MONITOR_HOR_RES cfg + (x + 1)))
             (map (lv_color_to32 cfg) (take (nat (x2 area + 1 - (x + 1))) (drop (p + 1) src))) =
          row_write fb (nat ?i) (map (lv_color_to32 cfg) (take ?n (drop p src)))"
      unfolding n1 suc using i p n by (simp add: row_write_update take_drop_Cons [of p src ?n])
    also have "p + 1 + nat (x2 area + 1 - (x + 1)) = p + ?n"
      unfolding n1 using n by simp
    finally show ?thesis .
  qed
qed


lemma cell_in_row:
  fixes H xa n y k :: nat
  assumes "xa + n \<le> H"
  shows "(y * H + xa \<le> k \<and> k < y * H + xa + n) \<longleftrightarrow>
         (k div H = y \<and> xa \<le> k mod H \<and> k mod H < xa + n)"
proof (cases "n = 0")
  case True
  then show ?thesis by auto
next
  case False
  with assms have H: "0 < H" by simp
  show ?thesis
  proof
    assume a: "y * H + xa \<le> k \<and> k < y * H + xa + n"
    define c where "c = k - y * H"
    have k: "k = c + y * H" and c: "xa \<le> c" "c < xa + n" using a by (auto simp: c_def)
    have cH: "c < H" using c assms by simp
    have "k div H = y" "k mod H = c" using cH H by (simp_all add: k)
    with c show "k div H = y \<and> xa \<le> k mod H \<and> k mod H < xa + n" by simp
  next
    assume a: "k div H = y \<and> xa \<le> k mod H \<and> k mod H < xa + n"
    have "k = k div H * H + k mod H" by simp
    with a show "y * H + xa \<le> k \<and> k < y * H + xa + n" by (metis add_le_cancel_left nat_add_left_cancel_less add.assoc)
  qed
qed

lemma write_rows_cells:
  assumes "xa + n \<le> H" "(y + m) * H \<le> length fb" "p + m * n \<le> length src"
  shows "length (write_rows f H xa n m y src p fb) = length fb \<and>
     (\<forall>k < length fb. write_rows f H xa n m y src p fb ! k =
        (if y \<le> k div H \<and> k div H < y + m \<and> xa \<le> k mod H \<and> k mod H < xa + n
         then f (src ! (p + (k div H - y) * n + (k mod H - xa))) else fb ! k))"
  using assms
proof (induction m arbitrary: y p fb)
  case 0
  then show ?case by auto
next
  case (Suc m)
  let ?vs = "map f (take n (drop p src))"
  let ?fb = "row_write fb (y * H + xa) ?vs"
  have pn: "p + n \<le> length src" using Suc.prems(3) by simp
  then have lvs: "length ?vs = n" by simp
  have "y * H + xa + n \<le> Suc y * H" using Suc.prems(1) by simp
  also have "\<dots> \<le> (y + Suc m) * H" by simp
  finally have fits: "y * H + xa + length ?vs \<le> length fb" using Suc.prems(2) lvs by simp
  then have len: "length ?fb = length fb" by simp
  have ih: "length (write_rows f H xa n m (Suc y) src (p + n) ?fb) = length ?fb \<and>
     (\<forall>k < length ?fb. write_rows f H xa n m (Suc y) src (p + n) ?fb ! k =
        (if Suc y \<le> k div H \<and> k div H < Suc y + m \<and> xa \<le> k mod H \<and> k mod H < xa + n
         then f (src ! (p + n + (k div H - Suc y) * n + (k mod H - xa))) else ?fb ! k))"
    using Suc.prems by (intro Suc.IH) (simp_all add: len algebra_simps)
  show ?case
  proof (intro conjI allI impI)
    show "length (write_rows f H xa n (Suc m) y src p fb) = length fb"
      using ih len by simp
  next
    fix k assume k: "k < length fb"
    have row: "?fb ! k = (if k div H = y \<and> xa \<le> k mod H \<and> k mod H < xa + n
                          then f (src ! (p + (k - (y * H + xa)))) else fb ! k)"
      using nth_row_write [OF fits k] cell_in_row [OF Suc.prems(1), of y k] lvs pn
      by (auto simp: nth_append)
    have off: "k div H = y \<Longrightarrow> xa \<le> k mod H \<Longrightarrow> k - (y * H + xa) = k mod H - xa"
      by (metis add.commute diff_diff_left div_mult_mod_eq add_diff_cancel_left')
    have step: "Suc y \<le> k div H \<Longrightarrow> p + n + (k div H - Suc y) * n = p + (k div H - y) * n"
    proof -
      assume "Suc y \<le> k div H"
      then have "k div H - y = Suc (k div H - Suc y)" by simp
      then show ?thesis by simp
    qed
    show "write_rows f H xa n (Suc m) y src p fb ! k =
        (if y \<le> k div H \<and> k div H < y + Suc m \<and> xa \<le> k mod H \<and> k mod H < xa + n
         then f (src ! (p + (k div H - y) * n + (k mod H - xa))) else fb ! k)"
    proof (cases "k div H = y")
      case True
      then show ?thesis using ih k len row off by simp
    next
      case False
      let ?later = "Suc y \<le> k div H \<and> k div H < Suc y + m \<and> xa \<le> k mod H \<and> k mod H < xa + n"
      have same: "?later \<longleftrightarrow>
          (y \<le> k div H \<and> k div H < y + Suc m \<and> xa \<le> k mod H \<and> k mod H < xa + n)"
        using False by auto
      have rest: "write_rows f H xa n (Suc m) y src p fb ! k =
          (if ?later then f (src ! (p + n + (k div H - Suc y) * n + (k mod H - xa))) else fb ! k)"
        using ih k len row False by simp
      show ?thesis
      proof (cases ?later)
        case True
        then have eq: "p + n + (k div H - Suc y) * n = p + (k div H - y) * n"
          using step by blast
        from True same
        have c2: "y \<le> k div H \<and> k div H < y + Suc m \<and> xa \<le> k mod H \<and> k mod H < xa + n"
          by blast
        have "write_rows f H xa n (Suc m) y src p fb ! k =
            f (src ! (p + n + (k div H - Suc y) * n + (k mod H - xa)))"
          unfolding rest using True by (rule if_P)
        also have "\<dots> = f (src ! (p + (k div H - y) * n + (k mod H - xa)))"
          by (simp only: eq)
        finally show ?thesis
          unfolding if_P [OF c2] .
      next
        case False
        with same
        have c2: "\<not> (y \<le> k div H \<and> k div H < y + Suc m \<and> xa \<le> k mod H \<and> k mod H < xa + n)"
          by blast
        have "write_rows f H xa n (Suc m) y src p fb ! k = fb ! k"
          unfolding rest using False by (rule if_not_P)
        then show ?thesis
          unfolding if_not_P [OF c2] .
      qed
    qed
  qed
qed


lemma flush_px_rows_inside:
  assumes "0 \<le> x1 area" "x1 area \<le> x2 area" "x2 area < MONITOR_HOR_RES cfg"
    and "0 \<le> y" "y \<le> y2 area + 1"
    and "(y2 area + 1) * MONITOR_HOR_RES cfg \<le> int (length fb)"
    and "p + nat (y2 area + 1 - y) * nat (x2 area + 1 - x1 area) \<le> length src"
  shows "flush_px_rows cfg area y src p fb =
     Inr (write_rows (lv_color_to32 cfg) (nat (MONITOR_HOR_RES cfg)) (nat (x1 area))
            (nat (x2 area + 1 - x1 area)) (nat (y2 area + 1 - y)) (nat y) src p fb,
          p + nat (y2 area + 1 - y) * nat (x2 area + 1 - x1 area))"
  using assms
proof (induction cfg area y src p fb rule: flush_px_rows.induct)
  case (1 cfg area y src p fb)
  let ?H = "MONITOR_HOR_RES cfg" and ?n = "nat (x2 area + 1 - x1 area)"
  show ?case
  proof (cases "y \<le> y2 area")
    case False
    with "1.prems" have "y = y2 area + 1" by simp
    then show ?thesis by (subst flush_px_rows.simps) simp
  next
    case True
    let ?m = "nat (y2 area + 1 - y)"
    have H: "0 < ?H" using "1.prems"(1-3) by linarith
    have x12: "x1 area \<le> x2 area + 1" using "1.prems"(2) by simp
    from True have m: "?m = Suc (nat (y2 area + 1 - (y + 1)))" by simp
    have "(y + 1) * ?H \<le> (y2 area + 1) * ?H"
      using True H by (intro mult_right_mono) simp_all
    also have "\<dots> \<le> int (length fb)" by fact
    finally have room: "(y + 1) * ?H \<le> int (length fb)" .
    have d0: "0 \<le> y * ?H + x1 area" using "1.prems" H by simp
    have dn: "y * ?H + x2 area < int (length fb)"
      using room "1.prems"(3) by (simp add: algebra_simps)
    have pn: "p + ?n \<le> length src"
      using "1.prems"(7) by (simp add: m)
    let ?fb = "row_write fb (nat (y * ?H + x1 area)) (map (lv_color_to32 cfg) (take ?n (drop p src)))"
    have row: "flush_px_row cfg area y (x1 area) src p fb = Inr (?fb, p + ?n)"
      using d0 x12 dn pn by (rule flush_px_row_in_range)
    have d: "nat (y * ?H + x1 area) = nat y * nat ?H + nat (x1 area)"
      using "1.prems" H by (simp add: nat_add_distrib nat_mult_distrib)
    have lvs: "length (map (lv_color_to32 cfg) (take ?n (drop p src))) = ?n"
      using pn by simp
    have fits: "nat (y * ?H + x1 area) + length (map (lv_color_to32 cfg) (take ?n (drop p src)))
        \<le> length fb"
      unfolding lvs using d0 x12 dn by linarith
    have len: "length ?fb = length fb"
      using fits by (rule length_row_write)
    have ih: "flush_px_rows cfg area (y + 1) src (p + ?n) ?fb =
        Inr (write_rows (lv_color_to32 cfg) (nat ?H) (nat (x1 area)) ?n
               (nat (y2 area + 1 - (y + 1))) (nat (y + 1)) src (p + ?n) ?fb,
             p + ?n + nat (y2 area + 1 - (y + 1)) * ?n)"
      by (rule "1.IH" [OF True row refl])
        (use True "1.prems" in \<open>simp_all add: len m\<close>)
    have y1: "nat (y + 1) = Suc (nat y)" using "1.prems" by simp
    have "flush_px_rows cfg area y src p fb = flush_px_rows cfg area (y + 1) src (p + ?n) ?fb"
      using True row by (subst flush_px_rows.simps) simp
    also note ih
    finally show ?thesis
      unfolding y1 by (simp add: m d)
  qed
qed

lemma flush_bulk_rows_inside:
  assumes "0 \<le> x1 area" "x1 area \<le> x2 area" "x2 area < MONITOR_HOR_RES cfg"
    and "0 \<le> y" "y \<le> y2 area + 1" "y2 area < MONITOR_VER_RES cfg"
    and "(y2 area + 1) * MONITOR_HOR_RES cfg \<le> int (length fb)"
    and "p + nat (y2 area + 1 - y) * nat (x2 area + 1 - x1 area) \<le> length src"
  shows "flush_bulk_rows cfg area (nat (x2 area + 1 - x1 area)) y src p fb =
     Inr (write_rows (\<lambda>c. c) (nat (MONITOR_HOR_RES cfg)) (nat (x1 area))
            (nat (x2 area + 1 - x1 area)) (nat (y2 area + 1 - y)) (nat y) src p fb,
          p + nat (y2 area + 1 - y) * nat (x2 area + 1 - x1 area))"
  using assms
proof (induction cfg area "nat (x2 area + 1 - x1 area)" y src p fb rule: flush_bulk_rows.induct)
  case (1 cfg area y src p fb)
  let ?H = "MONITOR_HOR_RES cfg" and ?n = "nat (x2 area + 1 - x1 area)"
  show ?case
  proof (cases "y \<le> y2 area")
    case False
    with "1.prems" have "y = y2 area + 1" by simp
    then show ?thesis by (subst flush_bulk_rows.simps) simp
  next
    case True
    let ?m = "nat (y2 area + 1 - y)"
    have H: "0 < ?H" using "1.prems"(1-3) by linarith
    have x12: "x1 area \<le> x2 area + 1" using "1.prems"(2) by simp
    from True have m: "?m = Suc (nat (y2 area + 1 - (y + 1)))" by simp
    from True "1.prems" have cond: "y \<le> y2 area \<and> y < MONITOR_VER_RES cfg" by simp
    have "(y + 1) * ?H \<le> (y2 area + 1) * ?H"
      using True H by (intro mult_right_mono) simp_all
    also have "\<dots> \<le> int (length fb)" by fact
    finally have room: "(y + 1) * ?H \<le> int (length fb)" .
    have d0: "0 \<le> y * ?H + x1 area" using "1.prems" H by simp
    have dn: "y * ?H + x1 area + int ?n \<le> int (length fb)"
      using room "1.prems"(2,3) by (simp add: algebra_simps)
    have pn: "p + ?n \<le> length src"
      using "1.prems"(8) by (simp add: m)
    let ?fb = "row_write fb (nat (y * ?H + x1 area)) (take ?n (drop p src))"
    have row: "memcpy fb (y * ?H + x1 area) src p ?n = Inr ?fb"
      using d0 dn pn by (rule memcpy_row_write)
    have d: "nat (y * ?H + x1 area) = nat y * nat ?H + nat (x1 area)"
      using "1.prems" H by (simp add: nat_add_distrib nat_mult_distrib)
    have lvs: "length (take ?n (drop p src)) = ?n"
      using pn by simp
    have fits: "nat (y * ?H + x1 area) + length (take ?n (drop p src)) \<le> length fb"
      unfolding lvs using d0 x12 dn by linarith
    have len: "length ?fb = length fb"
      using fits by (rule length_row_write)
    have ih: "flush_bulk_rows cfg area ?n (y + 1) src (p + ?n) ?fb =
        Inr (write_rows (\<lambda>c. c) (nat ?H) (nat (x1 area)) ?n
               (nat (y2 area + 1 - (y + 1))) (nat (y + 1)) src (p + ?n) ?fb,
             p + ?n + nat (y2 area + 1 - (y + 1)) * ?n)"
      by (rule "1.hyps" [OF cond row])
        (use True "1.prems" in \<open>simp_all add: len m\<close>)
    have y1: "nat (y + 1) = Suc (nat y)" using "1.prems" by simp
    have "flush_bulk_rows cfg area ?n y src p fb = flush_bulk_rows cfg area ?n (y + 1) src (p + ?n) ?fb"
      using cond row by (subst flush_bulk_rows.simps) simp
    also note ih
    finally show ?thesis
      unfolding y1 by (simp add: m d)
  qed
qed

lemma width_inside:
  assumes "x1 area \<le> x2 area + 1" "x2 area - x1 area < 32767"
  shows "to_uint32 (lv_area_get_width area) = nat (x2 area + 1 - x1 area)"
proof -
  let ?v = "x2 area - x1 area + 1"
  have v: "0 \<le> ?v" "?v < 32768" using assms by simp_all
  then have "(?v + 32768) mod 65536 = ?v + 32768" by simp
  then have "to_int16 ?v = ?v" by (simp add: to_int16_def)
  moreover have "?v mod 4294967296 = ?v" using v by simp
  ultimately show ?thesis
    by (simp add: lv_area_get_width_def to_uint32_def algebra_simps)
qed

lemma flush_copy_inside:
  assumes "0 \<le> x1 area" "x1 area \<le> x2 area" "x2 area < MONITOR_HOR_RES cfg"
    and "0 \<le> y1 area" "y1 area \<le> y2 area" "y2 area < MONITOR_VER_RES cfg"
    and "MONITOR_HOR_RES cfg \<le> 32767"
    and "(y2 area + 1) * MONITOR_HOR_RES cfg \<le> int (length fb)"
    and "nat (y2 area + 1 - y1 area) * nat (x2 area + 1 - x1 area) \<le> length src"
  shows "flush_copy cfg area src fb =
     Inr (write_rows (if LV_COLOR_DEPTH cfg \<noteq> 24 \<and> LV_COLOR_DEPTH cfg \<noteq> 32
                      then lv_color_to32 cfg else (\<lambda>c. c))
            (nat (MONITOR_HOR_RES cfg)) (nat (x1 area)) (nat (x2 area + 1 - x1 area))
            (nat (y2 area + 1 - y1 area)) (nat (y1 area)) src 0 fb)"
proof (cases "LV_COLOR_DEPTH cfg \<noteq> 24 \<and> LV_COLOR_DEPTH cfg \<noteq> 32")
  case True
  have "flush_px_rows cfg area (y1 area) src 0 fb =
     Inr (write_rows (lv_color_to32 cfg) (nat (MONITOR_HOR_RES cfg)) (nat (x1 area))
            (nat (x2 area + 1 - x1 area)) (nat (y2 area + 1 - y1 area)) (nat (y1 area)) src 0 fb,
          0 + nat (y2 area + 1 - y1 area) * nat (x2 area + 1 - x1 area))"
    using assms by (intro flush_px_rows_inside) simp_all
  then show ?thesis using True by (simp add: flush_copy_def)
next
  case False
  have w: "to_uint32 (lv_area_get_width area) = nat (x2 area + 1 - x1 area)"
    using assms by (intro width_inside) simp_all
  have "flush_bulk_rows cfg area (nat (x2 area + 1 - x1 area)) (y1 area) src 0 fb =
     Inr (write_rows (\<lambda>c. c) (nat (MONITOR_HOR_RES cfg)) (nat (x1 area))
            (nat (x2 area + 1 - x1 area)) (nat (y2 area + 1 - y1 area)) (nat (y1 area)) src 0 fb,
          0 + nat (y2 area + 1 - y1 area) * nat (x2 area + 1 - x1 area))"
    using assms by (intro flush_bulk_rows_inside) simp_all
  then show ?thesis
    unfolding flush_copy_def if_not_P [OF False] Let_def w by simp
qed

lemma write_rows_cells_int:
  fixes H xa xb ya yb :: int
  assumes "0 \<le> xa" "xa \<le> xb" "xb < H" "0 \<le> ya" "ya \<le> yb"
    and "(yb + 1) * H \<le> int (length fb)"
    and "nat (yb + 1 - ya) * nat (xb + 1 - xa) \<le> length src"
    and "k < length fb"
  shows "write_rows f (nat H) (nat xa) (nat (xb + 1 - xa)) (nat (yb + 1 - ya)) (nat ya) src 0 fb ! k =
     (if ya \<le> int k div H \<and> int k div H \<le> yb \<and> xa \<le> int k mod H \<and> int k mod H \<le> xb
      then f (src ! nat ((int k div H - ya) * (xb - xa + 1) + (int k mod H - xa)))
      else fb ! k)"
proof -
  let ?H = "nat H" and ?xa = "nat xa" and ?n = "nat (xb + 1 - xa)"
  let ?m = "nat (yb + 1 - ya)" and ?ya = "nat ya"
  let ?r = "k div ?H" and ?c = "k mod ?H"
  have H: "0 < H" using assms(1-3) by linarith
  have r: "int ?r = int k div H" and c: "int ?c = int k mod H"
    using H by (simp_all add: zdiv_int zmod_int)
  have a1: "?xa + ?n \<le> ?H" using assms by linarith
  have "(?ya + ?m) * ?H = nat ((yb + 1) * H)"
    using assms H by (simp add: nat_mult_distrib nat_add_distrib [symmetric])
  then have a2: "(?ya + ?m) * ?H \<le> length fb" using assms(6) by linarith
  have a3: "0 + ?m * ?n \<le> length src" using assms(7) by simp
  have cells: "write_rows f ?H ?xa ?n ?m ?ya src 0 fb ! k =
        (if ?ya \<le> ?r \<and> ?r < ?ya + ?m \<and> ?xa \<le> ?c \<and> ?c < ?xa + ?n
         then f (src ! (0 + (?r - ?ya) * ?n + (?c - ?xa))) else fb ! k)"
    using write_rows_cells [OF a1 a2 a3, of f] assms(8) by blast
  have cond: "(?ya \<le> ?r \<and> ?r < ?ya + ?m \<and> ?xa \<le> ?c \<and> ?c < ?xa + ?n) \<longleftrightarrow>
      (ya \<le> int k div H \<and> int k div H \<le> yb \<and> xa \<le> int k mod H \<and> int k mod H \<le> xb)"
  proof -
    have m: "?ya + ?m = nat (yb + 1)" and n: "?xa + ?n = nat (xb + 1)"
      using assms(1,2,4,5) by simp_all
    show ?thesis
      unfolding m n r [symmetric] c [symmetric]
      by (simp add: nat_le_iff zless_nat_eq_int_zless)
  qed
  have idx: "0 + (?r - ?ya) * ?n + (?c - ?xa) =
      nat ((int k div H - ya) * (xb - xa + 1) + (int k mod H - xa))"
    if "?ya \<le> ?r" "?xa \<le> ?c"
  proof -
    have ya: "int ?ya = ya" and xa: "int ?xa = xa" using assms(1,4) by simp_all
    have e1: "int (?r - ?ya) = int ?r - ya"
      unfolding of_nat_diff [OF that(1)] ya ..
    have e2: "int ?n = xb - xa + 1" using assms(2) by simp
    have e3: "int (?c - ?xa) = int ?c - xa"
      unfolding of_nat_diff [OF that(2)] xa ..
    have "int ((?r - ?ya) * ?n + (?c - ?xa)) = int (?r - ?ya) * int ?n + int (?c - ?xa)"
      by (simp only: of_nat_add of_nat_mult)
    also have "\<dots> = (int k div H - ya) * (xb - xa + 1) + (int k mod H - xa)"
      by (simp only: e1 e2 e3 r c)
    finally have e: "int ((?r - ?ya) * ?n + (?c - ?xa)) =
        (int k div H - ya) * (xb - xa + 1) + (int k mod H - xa)" .
    have "nat (int ((?r - ?ya) * ?n + (?c - ?xa))) = (?r - ?ya) * ?n + (?c - ?xa)"
      by (rule nat_int)
    then show ?thesis
      by (simp only: e add_0)
  qed
  show ?thesis
  proof (cases "ya \<le> int k div H \<and> int k div H \<le> yb \<and> xa \<le> int k mod H \<and> int k mod H \<le> xb")
    case True
    with cond have c1: "?ya \<le> ?r \<and> ?r < ?ya + ?m \<and> ?xa \<le> ?c \<and> ?c < ?xa + ?n"
      by blast
    then have i: "0 + (?r - ?ya) * ?n + (?c - ?xa) =
        nat ((int k div H - ya) * (xb - xa + 1) + (int k mod H - xa))"
      using idx by blast
    show ?thesis
      unfolding cells if_P [OF c1] if_P [OF True] i ..
  next
    case False
    with cond have c1: "\<not> (?ya \<le> ?r \<and> ?r < ?ya + ?m \<and> ?xa \<le> ?c \<and> ?c < ?xa + ?n)"
      by blast
    show ?thesis
      unfolding cells if_not_P [OF c1] if_not_P [OF False] ..
  qed
qed

lemma length_write_rows_int:
  fixes H xa xb ya yb :: int
  assumes "0 \<le> xa" "xa \<le> xb" "xb < H" "0 \<le> ya" "ya \<le> yb"
    and "(yb + 1) * H \<le> int (length fb)"
    and "nat (yb + 1 - ya) * nat (xb + 1 - xa) \<le> length src"
  shows "length (write_rows f (nat H) (nat xa) (nat (xb + 1 - xa)) (nat (yb + 1 - ya)) (nat ya) src 0 fb)
     = length fb"
proof -
  have H: "0 < H" using assms(1-3) by linarith
  have a1: "nat xa + nat (xb + 1 - xa) \<le> nat H" using assms by linarith
  have "(nat ya + nat (yb + 1 - ya)) * nat H = nat ((yb + 1) * H)"
    using assms H by (simp add: nat_mult_distrib nat_add_distrib [symmetric])
  then have a2: "(nat ya + nat (yb + 1 - ya)) * nat H \<le> length fb" using assms(6) by linarith
  have a3: "0 + nat (yb + 1 - ya) * nat (xb + 1 - xa) \<le> length src" using assms(7) by simp
  show ?thesis
    using write_rows_cells [OF a1 a2 a3, of f] by blast
qed

text \<open>
  The bulk loop stops at row \<open>MONITOR_VER_RES\<close>: it does what it does for the rectangle
  cut at the last row of the surface. A rectangle that starts above row 0 makes
  either loop write before the start of the buffer.
\<close>

lemma flush_bulk_rows_clip:
  "flush_bulk_rows cfg area n y src p fb =
   flush_bulk_rows cfg (area\<lparr>y2 := min (y2 area) (MONITOR_VER_RES cfg - 1)\<rparr>) n y src p fb"
proof (induction cfg area n y src p fb rule: flush_bulk_rows.induct)
  case (1 cfg area w y src p fb)
  let ?a = "area\<lparr>y2 := min (y2 area) (MONITOR_VER_RES cfg - 1)\<rparr>"
  have cond: "(y \<le> y2 ?a \<and> y < MONITOR_VER_RES cfg) \<longleftrightarrow> (y \<le> y2 area \<and> y < MONITOR_VER_RES cfg)"
    by auto
  show ?case
  proof (cases "y \<le> y2 area \<and> y < MONITOR_VER_RES cfg")
    case False
    then have "flush_bulk_rows cfg area w y src p fb = Inr (fb, p)"
      by (subst flush_bulk_rows.simps, subst if_not_P) (assumption, rule refl)
    moreover from False cond have "\<not> (y \<le> y2 ?a \<and> y < MONITOR_VER_RES cfg)"
      by blast
    then have "flush_bulk_rows cfg ?a w y src p fb = Inr (fb, p)"
      by (subst flush_bulk_rows.simps, subst if_not_P) (assumption, rule refl)
    ultimately show ?thesis by simp
  next
    case True
    from True cond have True': "y \<le> y2 ?a \<and> y < MONITOR_VER_RES cfg"
      by blast
    have l: "flush_bulk_rows cfg area w y src p fb =
        (case memcpy fb (y * MONITOR_HOR_RES cfg + x1 area) src p w of
           Inl e \<Rightarrow> Inl e
         | Inr fb' \<Rightarrow> flush_bulk_rows cfg area w (y + 1) src (p + w) fb')"
      by (subst flush_bulk_rows.simps, subst if_P) (rule True, rule refl)
    have r: "flush_bulk_rows cfg ?a w y src p fb =
        (case memcpy fb (y * MONITOR_HOR_RES cfg + x1 ?a) src p w of
           Inl e \<Rightarrow> Inl e
         | Inr fb' \<Rightarrow> flush_bulk_rows cfg ?a w (y + 1) src (p + w) fb')"
      by (subst flush_bulk_rows.simps, subst if_P) (rule True', rule refl)
    show ?thesis
    proof (cases "memcpy fb (y * MONITOR_HOR_RES cfg + x1 area) src p w")
      case (Inl e)
      then show ?thesis unfolding l r by simp
    next
      case (Inr fb')
      have "flush_bulk_rows cfg area w (y + 1) src (p + w) fb' =
          flush_bulk_rows cfg ?a w (y + 1) src (p + w) fb'"
        using True Inr by (rule "1.IH")
      then show ?thesis unfolding l r using Inr by simp
    qed
  qed
qed

lemma flush_copy_clip:
  assumes "\<not> (LV_COLOR_DEPTH cfg \<noteq> 24 \<and> LV_COLOR_DEPTH cfg \<noteq> 32)"
  shows "flush_copy cfg area src fb =
     flush_copy cfg (area\<lparr>y2 := min (y2 area) (MONITOR_VER_RES cfg - 1)\<rparr>) src fb"
  unfolding flush_copy_def if_not_P [OF assms] Let_def
  using flush_bulk_rows_clip [of cfg area "to_uint32 (lv_area_get_width area)" "y1 area" src 0 fb]
  by (simp add: lv_area_get_width_def)

lemma flush_copy_below:
  assumes "\<not> (LV_COLOR_DEPTH cfg \<noteq> 24 \<and> LV_COLOR_DEPTH cfg \<noteq> 32)"
    and "MONITOR_VER_RES cfg \<le> y1 area"
  shows "flush_copy cfg area src fb = Inr fb"
proof -
  have "flush_bulk_rows cfg area n (y1 area) src 0 fb = Inr (fb, 0)" for n
    using assms(2) by (subst flush_bulk_rows.simps) simp
  then show ?thesis
    unfolding flush_copy_def if_not_P [OF assms(1)] Let_def by simp
qed

lemma flush_copy_above:
  assumes "0 \<le> x1 area" "x1 area \<le> x2 area" "x2 area < MONITOR_HOR_RES cfg"
    and "y1 area \<le> y2 area" "y1 area < 0" "0 < MONITOR_VER_RES cfg"
  shows "\<exists>e. flush_copy cfg area src fb = Inl e"
proof -
  let ?d = "y1 area * MONITOR_HOR_RES cfg + x1 area"
  have H: "0 < MONITOR_HOR_RES cfg" using assms(1-3) by linarith
  have "y1 area * MONITOR_HOR_RES cfg \<le> (- 1) * MONITOR_HOR_RES cfg"
    using assms(5) H by (intro mult_right_mono) simp_all
  then have d: "?d < 0" using assms(2,3) by simp
  show ?thesis
  proof (cases "LV_COLOR_DEPTH cfg \<noteq> 24 \<and> LV_COLOR_DEPTH cfg \<noteq> 32")
    case True
    have "\<exists>e. flush_px_row cfg area (y1 area) (x1 area) src 0 fb = Inl e"
      using assms(2) d
      by (subst flush_px_row.simps) (auto simp: store_fb_def split: sum.splits)
    then obtain e where "flush_px_row cfg area (y1 area) (x1 area) src 0 fb = Inl e" ..
    then have "flush_px_rows cfg area (y1 area) src 0 fb = Inl e"
      using assms(4) by (subst flush_px_rows.simps) simp
    then show ?thesis
      using True by (simp add: flush_copy_def)
  next
    case False
    have c: "y1 area \<le> y2 area \<and> y1 area < MONITOR_VER_RES cfg"
      using assms(4-6) by simp
    have "memcpy fb ?d src 0 n = Inl (Write_out_of_bounds ?d)" for n
      using d by (simp add: memcpy_def)
    then have "flush_bulk_rows cfg area n (y1 area) src 0 fb = Inl (Write_out_of_bounds ?d)" for n
      using c by (subst flush_bulk_rows.simps) simp
    then show ?thesis
      unfolding flush_copy_def if_not_P [OF False] Let_def by simp
  qed
qed

lemma flush_copy_clipped:
  assumes "0 \<le> x1 area" "x1 area \<le> x2 area" "x2 area < MONITOR_HOR_RES cfg"
    and "0 \<le> y1 area" "y1 area \<le> y2 area"
    and "LV_COLOR_DEPTH cfg \<noteq> 24 \<and> LV_COLOR_DEPTH cfg \<noteq> 32 \<longrightarrow> y2 area < MONITOR_VER_RES cfg"
    and "MONITOR_HOR_RES cfg \<le> 32767"
    and "MONITOR_VER_RES cfg * MONITOR_HOR_RES cfg \<le> int (length fb)"
    and "(y2 area - y1 area + 1) * (x2 area - x1 area + 1) \<le> int (length src)"
  shows "\<exists>fb'. flush_copy cfg area src fb = Inr fb' \<and> length fb' = length fb
     \<and> (\<forall>k < length fb. fb' ! k =
          (if y1 area \<le> int k div MONITOR_HOR_RES cfg \<and> int k div MONITOR_HOR_RES cfg \<le> y2 area
              \<and> int k div MONITOR_HOR_RES cfg < MONITOR_VER_RES cfg
              \<and> x1 area \<le> int k mod MONITOR_HOR_RES cfg \<and> int k mod MONITOR_HOR_RES cfg \<le> x2 area
           then (if LV_COLOR_DEPTH cfg \<noteq> 24 \<and> LV_COLOR_DEPTH cfg \<noteq> 32
                 then lv_color_to32 cfg else (\<lambda>c. c))
                  (src ! nat ((int k div MONITOR_HOR_RES cfg - y1 area) * (x2 area - x1 area + 1)
                              + (int k mod MONITOR_HOR_RES cfg - x1 area)))
           else fb ! k))"
proof -
  let ?H = "MONITOR_HOR_RES cfg" and ?V = "MONITOR_VER_RES cfg"
  let ?f = "if LV_COLOR_DEPTH cfg \<noteq> 24 \<and> LV_COLOR_DEPTH cfg \<noteq> 32 then lv_color_to32 cfg else (\<lambda>c. c)"
  let ?conv = "LV_COLOR_DEPTH cfg \<noteq> 24 \<and> LV_COLOR_DEPTH cfg \<noteq> 32"
  have H: "0 < ?H" using assms(1-3) by linarith
  show ?thesis
  proof (cases "\<not> ?conv \<and> ?V \<le> y1 area")
    case True
    then have "flush_copy cfg area src fb = Inr fb"
      by (intro flush_copy_below) simp_all
    moreover have "\<not> (y1 area \<le> r \<and> r < ?V)" for r
      using True by simp
    ultimately show ?thesis by auto
  next
    case False
    define yb where "yb = min (y2 area) (?V - 1)"
    let ?a = "area\<lparr>y2 := yb\<rparr>"
    have yb: "y1 area \<le> yb" "yb < ?V" "yb \<le> y2 area"
      using False assms(5,6) by (auto simp: yb_def)
    have same: "flush_copy cfg area src fb = flush_copy cfg ?a src fb"
    proof (cases ?conv)
      case True
      with assms(6) have "yb = y2 area" by (simp add: yb_def)
      then show ?thesis by simp
    next
      case False
      then show ?thesis unfolding yb_def by (rule flush_copy_clip)
    qed
    let ?fb' = "write_rows ?f (nat ?H) (nat (x1 area)) (nat (x2 area + 1 - x1 area))
                  (nat (yb + 1 - y1 area)) (nat (y1 area)) src 0 fb"
    have "(yb + 1) * ?H \<le> ?V * ?H"
      using yb(2) H by (intro mult_right_mono) simp_all
    also have "\<dots> \<le> int (length fb)" by fact
    finally have room: "(yb + 1) * ?H \<le> int (length fb)" .
    have "(yb - y1 area + 1) * (x2 area - x1 area + 1) \<le> (y2 area - y1 area + 1) * (x2 area - x1 area + 1)"
      using yb(3) assms(2) by (intro mult_right_mono) simp_all
    also have "\<dots> \<le> int (length src)" by fact
    finally have px: "(yb - y1 area + 1) * (x2 area - x1 area + 1) \<le> int (length src)" .
    have "int (nat (yb + 1 - y1 area) * nat (x2 area + 1 - x1 area)) =
        (yb - y1 area + 1) * (x2 area - x1 area + 1)"
      using assms(2) yb(1) by (simp add: algebra_simps)
    then have pixels: "nat (yb + 1 - y1 area) * nat (x2 area + 1 - x1 area) \<le> length src"
      using px by linarith
    have "flush_copy cfg ?a src fb =
        Inr (write_rows (if LV_COLOR_DEPTH cfg \<noteq> 24 \<and> LV_COLOR_DEPTH cfg \<noteq> 32
                         then lv_color_to32 cfg else (\<lambda>c. c))
               (nat ?H) (nat (x1 ?a)) (nat (x2 ?a + 1 - x1 ?a))
               (nat (y2 ?a + 1 - y1 ?a)) (nat (y1 ?a)) src 0 fb)"
      using assms(1-4,7) yb(1,2) room pixels by (intro flush_copy_inside) simp_all
    then have copy: "flush_copy cfg area src fb = Inr ?fb'"
      using same by simp
    have len: "length ?fb' = length fb"
      using assms(1-4) yb(1) room pixels by (rule length_write_rows_int)
    have cells: "?fb' ! k =
          (if y1 area \<le> int k div ?H \<and> int k div ?H \<le> yb
              \<and> x1 area \<le> int k mod ?H \<and> int k mod ?H \<le> x2 area
           then ?f (src ! nat ((int k div ?H - y1 area) * (x2 area - x1 area + 1)
                              + (int k mod ?H - x1 area)))
           else fb ! k)" if "k < length fb" for k
      using assms(1-4) yb(1) room pixels that by (rule write_rows_cells_int)
    have rows: "(y1 area \<le> r \<and> r \<le> yb \<and> P) \<longleftrightarrow> (y1 area \<le> r \<and> r \<le> y2 area \<and> r < ?V \<and> P)"
      for r P
      unfolding yb_def by auto
    show ?thesis
    proof (intro exI conjI allI impI)
      show "flush_copy cfg area src fb = Inr ?fb'" by (rule copy)
      show "length ?fb' = length fb" by (rule len)
      fix k assume k: "k < length fb"
      show "?fb' ! k =
          (if y1 area \<le> int k div ?H \<and> int k div ?H \<le> y2 area \<and> int k div ?H < ?V
              \<and> x1 area \<le> int k mod ?H \<and> int k mod ?H \<le> x2 area
           then ?f (src ! nat ((int k div ?H - y1 area) * (x2 area - x1 area + 1)
                              + (int k mod ?H - x1 area)))
           else fb ! k)"
        unfolding cells [OF k] rows ..
    qed
  qed
qed

subsection \<open>The acknowledgment of a flush\<close>

text \<open>
  C1. A flush whose rectangle lies wholly outside of the effective bounds of the surface
  (the resolution of the driver, with \<open>hor_res\<close> and \<open>ver_res\<close> exchanged when it is
  rotated) returns after one call of \<open>lv_disp_flush_ready\<close>, and leaves the owned
  buffer, the borrowed pointer and the pending-refresh flag of the surface as they were.
\<close>

theorem monitor_flush_out_of_screen:
  assumes "hres = (if rotated disp_drv = 0 then hor_res disp_drv else ver_res disp_drv)"
    and "vres = (if rotated disp_drv = 0 then ver_res disp_drv else hor_res disp_drv)"
    and "x2 area < 0 \<or> y2 area < 0 \<or> x1 area > hres - 1 \<or> y1 area > vres - 1"
  shows "\<exists>w'. monitor_flush cfg disp_drv area color_p src w = Inr w'
           \<and> trace w' = trace w @ [Lv_disp_flush_ready disp_drv]
           \<and> tft_fb (monitor w') = tft_fb (monitor w)
           \<and> tft_fb_act (monitor w') = tft_fb_act (monitor w)
           \<and> sdl_refr_qry (monitor w') = sdl_refr_qry (monitor w)
           \<and> monitor w' = monitor w \<and> monitor2 w' = monitor2 w"
  using assms by (simp add: monitor_flush_def out_of_screen_def Let_def)

theorem monitor_flush_out_of_screen_witness:
  "\<exists>w'. monitor_flush example_cfg example_drv \<lparr>x1 = 500, y1 = 10, x2 = 510, y2 = 19\<rparr> 1 []
           (start_world []) = Inr w'
     \<and> trace w' = [Lv_disp_flush_ready example_drv]
     \<and> tft_fb (monitor w') = []
     \<and> tft_fb_act (monitor w') = NULL
     \<and> sdl_refr_qry (monitor w') = False"
proof -
  have h: "480 = (if rotated example_drv = 0 then hor_res example_drv else ver_res example_drv)"
    by (simp add: example_drv_def)
  have v: "320 = (if rotated example_drv = 0 then ver_res example_drv else hor_res example_drv)"
    by (simp add: example_drv_def)
  have a: "x2 \<lparr>x1 = 500, y1 = 10, x2 = 510, y2 = 19\<rparr> < 0 \<or> y2 \<lparr>x1 = 500, y1 = 10, x2 = 510, y2 = 19\<rparr> < 0
         \<or> x1 \<lparr>x1 = 500, y1 = 10, x2 = 510, y2 = 19\<rparr> > 480 - 1
         \<or> y1 \<lparr>x1 = 500, y1 = 10, x2 = 510, y2 = 19\<rparr> > 320 - 1"
    by simp
  obtain w' where "monitor_flush example_cfg example_drv \<lparr>x1 = 500, y1 = 10, x2 = 510, y2 = 19\<rparr> 1 []
           (start_world []) = Inr w'"
     and "trace w' = trace (start_world []) @ [Lv_disp_flush_ready example_drv]"
     and "monitor w' = monitor (start_world [])"
    using monitor_flush_out_of_screen [OF h v a, of example_cfg 1 "[]" "start_world []"] by blast
  then show ?thesis
    by (simp add: start_world_def blank_monitor_def)
qed

text \<open>
  C2. Every call of \<open>monitor_flush\<close> and of \<open>monitor_flush2\<close> that returns has called
  \<open>lv_disp_flush_ready\<close> exactly once, as its last action; when the rectangle is not
  rejected, the store of \<open>true\<close> to the pending-refresh flag precedes it. The only
  calls that do not return are those whose copy in single-buffered mode leaves the
  arrays, where C gives the program no behaviour.
\<close>

theorem monitor_flush_ready_once:
  "(case monitor_flush cfg disp_drv area color_p src w of
      Inr w' \<Rightarrow>
        trace w' = trace w
           @ (if out_of_screen disp_drv area then [] else [Store_sdl_refr_qry Monitor True])
           @ [Lv_disp_flush_ready disp_drv]
        \<and> (\<not> out_of_screen disp_drv area \<longrightarrow> sdl_refr_qry (monitor w'))
    | Inl e \<Rightarrow>
        \<not> out_of_screen disp_drv area \<and> \<not> MONITOR_DOUBLE_BUFFERED cfg
        \<and> flush_copy cfg area src (tft_fb (monitor w)) = Inl e)
   \<and>
   (case monitor_flush2 cfg disp_drv area color_p src w of
      Inr w' \<Rightarrow>
        trace w' = trace w
           @ (if out_of_screen disp_drv area then [] else [Store_sdl_refr_qry Monitor2 True])
           @ [Lv_disp_flush_ready disp_drv]
        \<and> (\<not> out_of_screen disp_drv area \<longrightarrow> sdl_refr_qry (monitor2 w'))
    | Inl e \<Rightarrow>
        \<not> out_of_screen disp_drv area \<and> \<not> MONITOR_DOUBLE_BUFFERED cfg
        \<and> flush_copy cfg area src (tft_fb (monitor2 w)) = Inl e)"
  by (simp add: monitor_flush_def monitor_flush2_def Let_def split: sum.splits)


theorem monitor_flush_ready_once_witness:
  "(\<exists>w'. monitor_flush small_cfg small_drv \<lparr>x1 = 1, y1 = 0, x2 = 2, y2 = 1\<rparr> 1 [5, 6, 7, 8]
            (start_world [0, 0, 0, 0, 0, 0, 0, 0]) = Inr w'
      \<and> trace w' = [Store_sdl_refr_qry Monitor True, Lv_disp_flush_ready small_drv]
      \<and> sdl_refr_qry (monitor w'))
   \<and> (\<exists>w'. monitor_flush2 small_cfg small_drv \<lparr>x1 = 4, y1 = 0, x2 = 5, y2 = 1\<rparr> 1 [5, 6, 7, 8]
            (start_world [0, 0, 0, 0, 0, 0, 0, 0]) = Inr w'
      \<and> trace w' = [Lv_disp_flush_ready small_drv])"
proof -
  let ?a = "\<lparr>x1 = 1, y1 = 0, x2 = 2, y2 = 1\<rparr>" and ?b = "\<lparr>x1 = 4, y1 = 0, x2 = 5, y2 = 1\<rparr>"
  let ?w = "start_world [0, 0, 0, 0, 0, 0, 0, 0]"
  have in_a: "\<not> out_of_screen small_drv ?a" and out_b: "out_of_screen small_drv ?b"
    by (simp_all add: out_of_screen_def small_drv_def)
  have copy: "flush_copy small_cfg ?a [5, 6, 7, 8] (tft_fb (monitor ?w)) = Inr [0, 5, 6, 0, 0, 7, 8, 0]"
    by (simp add: flush_copy_def small_cfg_def example_cfg_def lv_area_get_width_def to_int16_def
        to_uint32_def memcpy_def start_world_def blank_monitor_def flush_bulk_rows.simps)
  have tr: "trace ?w = []"
    by (simp add: start_world_def)
  note both = monitor_flush_ready_once [where cfg = small_cfg and disp_drv = small_drv and area = ?a
      and color_p = 1 and src = "[5, 6, 7, 8]" and w = ?w]
    monitor_flush_ready_once [where cfg = small_cfg and disp_drv = small_drv and area = ?b
      and color_p = 1 and src = "[5, 6, 7, 8]" and w = ?w]
  show ?thesis
    using both in_a out_b copy tr by (auto split: sum.splits)
qed

subsection \<open>What a flush writes\<close>

text \<open>
  C3, as the code has it. Cell \<open>k\<close> of the owned buffer is the pixel in row
  \<open>k div MONITOR_HOR_RES\<close> and column \<open>k mod MONITOR_HOR_RES\<close>. In single-buffered mode,
  take a rectangle that passes the test of the callback and whose columns lie inside of
  the surface, \<open>0 \<le> x1 \<le> x2 < MONITOR_HOR_RES\<close>, with rows \<open>y1 \<le> y2\<close> that may cross
  the bottom edge on the bulk path and end above \<open>MONITOR_VER_RES\<close> on the conversion
  path, a buffer that holds the surface and a source that holds the rectangle. If the
  rectangle starts at a row \<open>0 \<le> y1\<close>, the flush returns, every cell of the rectangle
  in a row below \<open>MONITOR_VER_RES\<close> holds the source pixel of its row-major position in
  the rectangle (converted by \<open>lv_color_to32\<close> on the conversion path), and every other
  cell of the buffer holds what it held before. If the rectangle starts above row 0,
  the flush writes before the start of the buffer and does not return.
\<close>

theorem monitor_flush_clipped:
  assumes "\<not> MONITOR_DOUBLE_BUFFERED cfg" and "\<not> out_of_screen disp_drv area"
    and "0 \<le> x1 area" "x1 area \<le> x2 area" "x2 area < MONITOR_HOR_RES cfg"
    and "y1 area \<le> y2 area"
    and "LV_COLOR_DEPTH cfg \<noteq> 24 \<and> LV_COLOR_DEPTH cfg \<noteq> 32 \<longrightarrow> y2 area < MONITOR_VER_RES cfg"
    and "MONITOR_HOR_RES cfg \<le> 32767"
    and "MONITOR_VER_RES cfg * MONITOR_HOR_RES cfg \<le> int (length (tft_fb (monitor w)))"
    and "(y2 area - y1 area + 1) * (x2 area - x1 area + 1) \<le> int (length src)"
  shows "(0 \<le> y1 area \<longrightarrow>
      (\<exists>w'. monitor_flush cfg disp_drv area color_p src w = Inr w'
        \<and> length (tft_fb (monitor w')) = length (tft_fb (monitor w))
        \<and> (\<forall>k < length (tft_fb (monitor w)). tft_fb (monitor w') ! k =
          (if y1 area \<le> int k div MONITOR_HOR_RES cfg \<and> int k div MONITOR_HOR_RES cfg \<le> y2 area
              \<and> int k div MONITOR_HOR_RES cfg < MONITOR_VER_RES cfg
              \<and> x1 area \<le> int k mod MONITOR_HOR_RES cfg \<and> int k mod MONITOR_HOR_RES cfg \<le> x2 area
           then (if LV_COLOR_DEPTH cfg \<noteq> 24 \<and> LV_COLOR_DEPTH cfg \<noteq> 32
                 then lv_color_to32 cfg else (\<lambda>c. c))
                  (src ! nat ((int k div MONITOR_HOR_RES cfg - y1 area) * (x2 area - x1 area + 1)
                              + (int k mod MONITOR_HOR_RES cfg - x1 area)))
           else tft_fb (monitor w) ! k))))
    \<and> (y1 area < 0 \<and> 0 < MONITOR_VER_RES cfg \<longrightarrow>
      (\<exists>e. monitor_flush cfg disp_drv area color_p src w = Inl e))"
proof (intro conjI impI)
  assume top: "0 \<le> y1 area"
  let ?H = "MONITOR_HOR_RES cfg" and ?fb = "tft_fb (monitor w)"
  let ?f = "if LV_COLOR_DEPTH cfg \<noteq> 24 \<and> LV_COLOR_DEPTH cfg \<noteq> 32 then lv_color_to32 cfg else (\<lambda>c. c)"
  obtain fb' where copy: "flush_copy cfg area src ?fb = Inr fb'"
    and len: "length fb' = length ?fb"
    and cells: "\<forall>k < length ?fb. fb' ! k =
          (if y1 area \<le> int k div ?H \<and> int k div ?H \<le> y2 area
              \<and> int k div ?H < MONITOR_VER_RES cfg
              \<and> x1 area \<le> int k mod ?H \<and> int k mod ?H \<le> x2 area
           then ?f (src ! nat ((int k div ?H - y1 area) * (x2 area - x1 area + 1)
                              + (int k mod ?H - x1 area)))
           else ?fb ! k)"
    using flush_copy_clipped [OF assms(3-5) top assms(6-10)] by blast
  let ?w = "call (Lv_disp_flush_ready disp_drv)
              (set_sdl_refr_qry Monitor True (w\<lparr>monitor := (monitor w)\<lparr>tft_fb := fb'\<rparr>\<rparr>))"
  have run: "monitor_flush cfg disp_drv area color_p src w = Inr ?w"
    using assms(1,2) copy by (simp add: monitor_flush_def)
  have fb: "tft_fb (monitor ?w) = fb'" by simp
  show "\<exists>w'. monitor_flush cfg disp_drv area color_p src w = Inr w'
        \<and> length (tft_fb (monitor w')) = length ?fb
        \<and> (\<forall>k < length ?fb. tft_fb (monitor w') ! k =
          (if y1 area \<le> int k div ?H \<and> int k div ?H \<le> y2 area
              \<and> int k div ?H < MONITOR_VER_RES cfg
              \<and> x1 area \<le> int k mod ?H \<and> int k mod ?H \<le> x2 area
           then ?f (src ! nat ((int k div ?H - y1 area) * (x2 area - x1 area + 1)
                              + (int k mod ?H - x1 area)))
           else ?fb ! k))"
  proof (intro exI conjI)
    show "monitor_flush cfg disp_drv area color_p src w = Inr ?w"
      by (rule run)
    show "length (tft_fb (monitor ?w)) = length ?fb"
      unfolding fb by (rule len)
    show "\<forall>k < length ?fb. tft_fb (monitor ?w) ! k =
          (if y1 area \<le> int k div ?H \<and> int k div ?H \<le> y2 area
              \<and> int k div ?H < MONITOR_VER_RES cfg
              \<and> x1 area \<le> int k mod ?H \<and> int k mod ?H \<le> x2 area
           then ?f (src ! nat ((int k div ?H - y1 area) * (x2 area - x1 area + 1)
                              + (int k mod ?H - x1 area)))
           else ?fb ! k)"
      unfolding fb by (rule cells)
  qed
next
  assume "y1 area < 0 \<and> 0 < MONITOR_VER_RES cfg"
  then have above: "y1 area < 0" and V: "0 < MONITOR_VER_RES cfg"
    by simp_all
  obtain e where "flush_copy cfg area src (tft_fb (monitor w)) = Inl e"
    using flush_copy_above [OF assms(3-6) above V] by blast
  then have "monitor_flush cfg disp_drv area color_p src w = Inl e"
    using assms(1,2) by (simp add: monitor_flush_def)
  then show "\<exists>e. monitor_flush cfg disp_drv area color_p src w = Inl e" ..
qed

theorem monitor_flush_clipped_witness:
  "(\<exists>w'. monitor_flush example_cfg example_drv \<lparr>x1 = 10, y1 = 315, x2 = 19, y2 = 324\<rparr> 1
            (map of_nat [0 ..< 100]) (start_world solid_fb) = Inr w'
     \<and> length (tft_fb (monitor w')) = 153600
     \<and> tft_fb (monitor w') ! 151210 = 0
     \<and> tft_fb (monitor w') ! 151211 = 1
     \<and> tft_fb (monitor w') ! 153139 = 49
     \<and> tft_fb (monitor w') ! 151209 = 0
     \<and> tft_fb (monitor w') ! 153140 = 0)
   \<and> (\<exists>e. monitor_flush example_cfg example_drv \<lparr>x1 = 10, y1 = - 5, x2 = 19, y2 = 4\<rparr> 1
            (map of_nat [0 ..< 100]) (start_world solid_fb) = Inl e)"
proof -
  let ?a = "\<lparr>x1 = 10, y1 = 315, x2 = 19, y2 = 324\<rparr>" and ?w = "start_world solid_fb"
  let ?b = "\<lparr>x1 = 10, y1 = - 5, x2 = 19, y2 = 4\<rparr>"
  let ?src = "map of_nat [0 ..< 100] :: lv_color_t list"
  have fb: "tft_fb (monitor ?w) = solid_fb"
    by (simp add: start_world_def blank_monitor_def)
  have len: "length solid_fb = 153600"
    by (simp add: solid_fb_def)
  have cfg: "MONITOR_HOR_RES example_cfg = 480" "MONITOR_VER_RES example_cfg = 320"
      "\<not> MONITOR_DOUBLE_BUFFERED example_cfg" "LV_COLOR_DEPTH example_cfg = 32"
    by (simp_all add: example_cfg_def)
  have h: "\<not> MONITOR_DOUBLE_BUFFERED example_cfg" "\<not> out_of_screen example_drv ?a"
      "0 \<le> x1 ?a" "x1 ?a \<le> x2 ?a" "x2 ?a < MONITOR_HOR_RES example_cfg"
      "y1 ?a \<le> y2 ?a"
      "LV_COLOR_DEPTH example_cfg \<noteq> 24 \<and> LV_COLOR_DEPTH example_cfg \<noteq> 32
        \<longrightarrow> y2 ?a < MONITOR_VER_RES example_cfg"
      "MONITOR_HOR_RES example_cfg \<le> 32767"
      "MONITOR_VER_RES example_cfg * MONITOR_HOR_RES example_cfg \<le> int (length (tft_fb (monitor ?w)))"
      "(y2 ?a - y1 ?a + 1) * (x2 ?a - x1 ?a + 1) \<le> int (length ?src)"
    by (simp_all add: cfg fb len out_of_screen_def example_drv_def)
  have g: "\<not> out_of_screen example_drv ?b"
      "0 \<le> x1 ?b" "x1 ?b \<le> x2 ?b" "x2 ?b < MONITOR_HOR_RES example_cfg"
      "y1 ?b \<le> y2 ?b"
      "LV_COLOR_DEPTH example_cfg \<noteq> 24 \<and> LV_COLOR_DEPTH example_cfg \<noteq> 32
        \<longrightarrow> y2 ?b < MONITOR_VER_RES example_cfg"
      "MONITOR_HOR_RES example_cfg \<le> 32767"
      "MONITOR_VER_RES example_cfg * MONITOR_HOR_RES example_cfg \<le> int (length (tft_fb (monitor ?w)))"
      "(y2 ?b - y1 ?b + 1) * (x2 ?b - x1 ?b + 1) \<le> int (length ?src)"
    by (simp_all add: cfg fb len out_of_screen_def example_drv_def)
  have "0 \<le> y1 ?a" by simp
  then obtain w' where run: "monitor_flush example_cfg example_drv ?a 1 ?src ?w = Inr w'"
    and size: "length (tft_fb (monitor w')) = length (tft_fb (monitor ?w))"
    and cells: "\<forall>k < length (tft_fb (monitor ?w)). tft_fb (monitor w') ! k =
          (if y1 ?a \<le> int k div MONITOR_HOR_RES example_cfg
              \<and> int k div MONITOR_HOR_RES example_cfg \<le> y2 ?a
              \<and> int k div MONITOR_HOR_RES example_cfg < MONITOR_VER_RES example_cfg
              \<and> x1 ?a \<le> int k mod MONITOR_HOR_RES example_cfg
              \<and> int k mod MONITOR_HOR_RES example_cfg \<le> x2 ?a
           then (if LV_COLOR_DEPTH example_cfg \<noteq> 24 \<and> LV_COLOR_DEPTH example_cfg \<noteq> 32
                 then lv_color_to32 example_cfg else (\<lambda>c. c))
                  (?src ! nat ((int k div MONITOR_HOR_RES example_cfg - y1 ?a) * (x2 ?a - x1 ?a + 1)
                              + (int k mod MONITOR_HOR_RES example_cfg - x1 ?a)))
           else tft_fb (monitor ?w) ! k)"
    using monitor_flush_clipped [OF h, of 1] by blast
  have old: "solid_fb ! 151209 = 0" "solid_fb ! 153140 = 0"
    by (simp_all add: solid_fb_def)
  have "tft_fb (monitor w') ! 151210 = 0" "tft_fb (monitor w') ! 151211 = 1"
      "tft_fb (monitor w') ! 153139 = 49"
      "tft_fb (monitor w') ! 151209 = 0" "tft_fb (monitor w') ! 153140 = 0"
    using cells [rule_format, of 151210] cells [rule_format, of 151211]
      cells [rule_format, of 153139]
      cells [rule_format, of 151209] cells [rule_format, of 153140] old
    by (simp_all add: cfg fb len)
  moreover have "length (tft_fb (monitor w')) = 153600"
    using size by (simp add: fb len)
  moreover have "y1 ?b < 0 \<and> 0 < MONITOR_VER_RES example_cfg"
    by (simp add: cfg)
  then have "\<exists>e. monitor_flush example_cfg example_drv ?b 1 ?src ?w = Inl e"
    using monitor_flush_clipped [OF h(1) g, of 1] by blast
  ultimately show ?thesis using run by blast
qed

text \<open>
  C3 as stated also covers rectangles that cross the left or the right edge, and on
  the conversion path those that cross the bottom edge. On a 4 by 2 surface the
  rectangle of row 0, columns 3 to 4 has only cell 3 inside of the surface, yet the
  flush also changes cell 4, the first cell of row 1, from 0 to 8. The rectangle of
  row 1, columns -1 to 0 has only cell 4 inside of the surface, yet the flush also
  changes cell 3, the last cell of row 0, from 0 to 7. With the 12 cell buffer of
  \<open>tall_cfg\<close> the conversion path writes the rectangle of column 1, rows 1 to 2 into
  cell 9 as well, in row 2, which is not a row of the surface.
\<close>

theorem monitor_flush_spills_counterexample:
  "\<not> out_of_screen small_drv \<lparr>x1 = 3, y1 = 0, x2 = 4, y2 = 0\<rparr>
   \<and> flushed_fb (monitor_flush small_cfg small_drv \<lparr>x1 = 3, y1 = 0, x2 = 4, y2 = 0\<rparr> 1 [7, 8]
                   (start_world [0, 0, 0, 0, 0, 0, 0, 0]))
       = Inr [0, 0, 0, 7, 8, 0, 0, 0]
   \<and> \<not> out_of_screen small_drv \<lparr>x1 = - 1, y1 = 1, x2 = 0, y2 = 1\<rparr>
   \<and> flushed_fb (monitor_flush small_cfg small_drv \<lparr>x1 = - 1, y1 = 1, x2 = 0, y2 = 1\<rparr> 1 [7, 8]
                   (start_world [0, 0, 0, 0, 0, 0, 0, 0]))
       = Inr [0, 0, 0, 7, 8, 0, 0, 0]
   \<and> \<not> out_of_screen small_drv \<lparr>x1 = 1, y1 = 1, x2 = 1, y2 = 2\<rparr>
   \<and> flushed_fb (monitor_flush (tall_cfg\<lparr>LV_COLOR_DEPTH := 16\<rparr>) small_drv
                   \<lparr>x1 = 1, y1 = 1, x2 = 1, y2 = 2\<rparr> 1 [7, 8]
                   (start_world [0, 0, 0, 0, 0, 0, 0, 0, 0, 0, 0, 0]))
       = Inr [0, 0, 0, 0, 0, 7, 0, 0, 0, 8, 0, 0]"
  by (simp add: flushed_fb_def monitor_flush_def out_of_screen_def small_drv_def small_cfg_def
      tall_cfg_def example_cfg_def flush_copy_def lv_area_get_width_def to_int16_def
      to_uint32_def memcpy_def store_fb_def load_color_def start_world_def blank_monitor_def
      flush_bulk_rows.simps flush_px_rows.simps flush_px_row.simps)

text \<open>
  C4. The conversion path does not clip the vertical extent. On a 4 by 2 surface the
  rectangle of column 0, rows 1 to 2 makes it write cell 8, in row 2: outside of the
  8 cell buffer of \<open>small_cfg\<close>, and inside of the 12 cell buffer of \<open>tall_cfg\<close>. The
  bulk path stops after row 1 on the same input.
\<close>

theorem flush_px_rows_unclipped:
  "flushed_fb (monitor_flush (small_cfg\<lparr>LV_COLOR_DEPTH := 16\<rparr>) small_drv
                 \<lparr>x1 = 0, y1 = 1, x2 = 0, y2 = 2\<rparr> 1 [7, 8]
                 (start_world [0, 0, 0, 0, 0, 0, 0, 0]))
     = Inl (Write_out_of_bounds 8)
   \<and> flushed_fb (monitor_flush (tall_cfg\<lparr>LV_COLOR_DEPTH := 16\<rparr>) small_drv
                 \<lparr>x1 = 0, y1 = 1, x2 = 0, y2 = 2\<rparr> 1 [7, 8]
                 (start_world [0, 0, 0, 0, 0, 0, 0, 0, 0, 0, 0, 0]))
     = Inr [0, 0, 0, 0, 7, 0, 0, 0, 8, 0, 0, 0]
   \<and> flushed_fb (monitor_flush tall_cfg small_drv
                 \<lparr>x1 = 0, y1 = 1, x2 = 0, y2 = 2\<rparr> 1 [7, 8]
                 (start_world [0, 0, 0, 0, 0, 0, 0, 0, 0, 0, 0, 0]))
     = Inr [0, 0, 0, 0, 7, 0, 0, 0, 0, 0, 0, 0]"
  by (simp add: flushed_fb_def monitor_flush_def out_of_screen_def small_drv_def small_cfg_def
      tall_cfg_def example_cfg_def flush_copy_def lv_area_get_width_def to_int16_def
      to_uint32_def memcpy_def start_world_def blank_monitor_def flush_bulk_rows.simps
      flush_px_rows.simps flush_px_row.simps store_fb_def load_color_def)

text \<open>
  C5. The two paths disagree on an input on which both are defined: on the 4 by 2
  surface with the 12 cell buffer, identical source and target pixel formats and the
  rectangle of columns 1 to 2, rows 1 to 2, the conversion path writes rows 1 and 2 and
  the bulk path row 1 only.
\<close>

theorem flush_paths_differ:
  "flushed_fb (monitor_flush (tall_cfg\<lparr>LV_COLOR_DEPTH := 16\<rparr>) small_drv
                 \<lparr>x1 = 1, y1 = 1, x2 = 2, y2 = 2\<rparr> 1 [5, 6, 7, 8]
                 (start_world [0, 0, 0, 0, 0, 0, 0, 0, 0, 0, 0, 0]))
     = Inr [0, 0, 0, 0, 0, 5, 6, 0, 0, 7, 8, 0]
   \<and> flushed_fb (monitor_flush tall_cfg small_drv
                 \<lparr>x1 = 1, y1 = 1, x2 = 2, y2 = 2\<rparr> 1 [5, 6, 7, 8]
                 (start_world [0, 0, 0, 0, 0, 0, 0, 0, 0, 0, 0, 0]))
     = Inr [0, 0, 0, 0, 0, 5, 6, 0, 0, 0, 0, 0]"
  by (simp add: flushed_fb_def monitor_flush_def out_of_screen_def small_drv_def small_cfg_def
      tall_cfg_def example_cfg_def flush_copy_def lv_area_get_width_def to_int16_def
      to_uint32_def memcpy_def start_world_def blank_monitor_def flush_bulk_rows.simps
      flush_px_rows.simps flush_px_row.simps store_fb_def load_color_def)

text \<open>
  The disagreement is confined to rectangles that reach below the surface: when the
  rectangle ends above row \<open>MONITOR_VER_RES\<close>, its width is one that \<open>lv_coord_t\<close>
  holds, and \<open>lv_color_to32\<close> is the identity, the two paths return the same buffer
  whenever both return one.
\<close>

lemma memcpy_Inr:
  assumes "memcpy fb d src p n = Inr fb'"
  shows "0 \<le> d" "d + int n \<le> int (length fb)" "p + n \<le> length src"
    "fb' = row_write fb (nat d) (take n (drop p src))"
  using assms by (auto simp: memcpy_def row_write_def split: if_splits)

lemma flush_rows_agree:
  assumes "MONITOR_HOR_RES cfga = MONITOR_HOR_RES cfgb" "lv_color_to32 cfga = (\<lambda>c. c)"
    and "y2 area < MONITOR_VER_RES cfgb" "x1 area \<le> x2 area + 1"
    and "flush_px_rows cfga area y src p fb = Inr r1"
    and "flush_bulk_rows cfgb area (nat (x2 area + 1 - x1 area)) y src p fb = Inr r2"
  shows "r1 = r2"
  using assms
proof (induction cfgb area "nat (x2 area + 1 - x1 area)" y src p fb rule: flush_bulk_rows.induct)
  case (1 cfgb area y src p fb)
  let ?n = "nat (x2 area + 1 - x1 area)" and ?d = "y * MONITOR_HOR_RES cfgb + x1 area"
  show ?case
  proof (cases "y \<le> y2 area")
    case False
    have "flush_px_rows cfga area y src p fb = Inr (fb, p)"
      using False by (subst flush_px_rows.simps) simp
    moreover have "flush_bulk_rows cfgb area ?n y src p fb = Inr (fb, p)"
      using False by (subst flush_bulk_rows.simps) simp
    ultimately show ?thesis using "1.prems"(5,6) by simp
  next
    case True
    with "1.prems" have cond: "y \<le> y2 area \<and> y < MONITOR_VER_RES cfgb" by simp
    from "1.prems"(6) cond obtain fb' where
      row: "memcpy fb ?d src p ?n = Inr fb'"
      and rest: "flush_bulk_rows cfgb area ?n (y + 1) src (p + ?n) fb' = Inr r2"
      by (subst (asm) flush_bulk_rows.simps) (auto split: sum.splits)
    note m = memcpy_Inr [OF row]
    have "y * MONITOR_HOR_RES cfga + x2 area < int (length fb)"
      using m(1,2) "1.prems"(1,4) by simp
    then have "flush_px_row cfga area y (x1 area) src p fb =
        Inr (row_write fb (nat (y * MONITOR_HOR_RES cfga + x1 area))
               (map (lv_color_to32 cfga) (take ?n (drop p src))), p + ?n)"
      using m(1,3) "1.prems"(1,4) by (intro flush_px_row_in_range) simp_all
    then have prow: "flush_px_row cfga area y (x1 area) src p fb = Inr (fb', p + ?n)"
      using m(4) "1.prems"(1,2) by simp
    have "flush_px_rows cfga area y src p fb = flush_px_rows cfga area (y + 1) src (p + ?n) fb'"
      using True prow by (subst flush_px_rows.simps) simp
    with "1.prems"(5) have prest: "flush_px_rows cfga area (y + 1) src (p + ?n) fb' = Inr r1"
      by simp
    show ?thesis
      using "1.prems"(1-4) prest rest by (rule "1.hyps" [OF cond row])
  qed
qed

lemma flush_paths_agree:
  assumes "LV_COLOR_DEPTH cfga \<noteq> 24 \<and> LV_COLOR_DEPTH cfga \<noteq> 32"
    and "LV_COLOR_DEPTH cfgb = 24 \<or> LV_COLOR_DEPTH cfgb = 32"
    and "MONITOR_HOR_RES cfga = MONITOR_HOR_RES cfgb" "lv_color_to32 cfga = (\<lambda>c. c)"
    and "y2 area < MONITOR_VER_RES cfgb" "x1 area \<le> x2 area + 1" "x2 area - x1 area < 32767"
    and "flush_copy cfga area src fb = Inr fb1" "flush_copy cfgb area src fb = Inr fb2"
  shows "fb1 = fb2"
proof -
  have w: "to_uint32 (lv_area_get_width area) = nat (x2 area + 1 - x1 area)"
    using assms(6,7) by (rule width_inside)
  from assms(1,8) obtain r1 where
    a: "flush_px_rows cfga area (y1 area) src 0 fb = Inr r1" and fb1: "fb1 = fst r1"
    by (cases "flush_px_rows cfga area (y1 area) src 0 fb") (auto simp: flush_copy_def)
  from assms(2,9) obtain r2 where
    b: "flush_bulk_rows cfgb area (nat (x2 area + 1 - x1 area)) (y1 area) src 0 fb = Inr r2"
    and fb2: "fb2 = fst r2"
    by (cases "flush_bulk_rows cfgb area (nat (x2 area + 1 - x1 area)) (y1 area) src 0 fb")
      (auto simp: flush_copy_def w)
  have "r1 = r2"
    using assms(3-6) a b by (rule flush_rows_agree)
  then show ?thesis by (simp add: fb1 fb2)
qed


subsection \<open>Rectangles that cross the right edge\<close>

lemma flush_bulk_one_row:
  assumes "y1 area = y2 area" "y1 area < MONITOR_VER_RES cfg"
  shows "flush_bulk_rows cfg area n (y1 area) src p fb =
     (case memcpy fb (y1 area * MONITOR_HOR_RES cfg + x1 area) src p n of
        Inl e \<Rightarrow> Inl e | Inr fb' \<Rightarrow> Inr (fb', p + n))"
proof -
  have "flush_bulk_rows cfg area n (y1 area + 1) src (p + n) fb' = Inr (fb', p + n)" for fb'
    using assms by (subst flush_bulk_rows.simps) simp
  then show ?thesis
    using assms by (subst flush_bulk_rows.simps) (simp split: sum.splits)
qed

text \<open>
  C8. The test of the callback lets a rectangle pass that begins on the surface and ends
  to the right of it, and the bulk path copies its full width. For such a rectangle of
  one row, on a buffer of exactly \<open>MONITOR_HOR_RES\<close> by \<open>MONITOR_VER_RES\<close> cells: if the
  row is not the last one, the pixels of the columns from \<open>MONITOR_HOR_RES\<close> on land in
  the first cells of the next row; if it is the last row, the \<open>memcpy\<close> leaves the array.
\<close>

theorem flush_bulk_crosses_right_edge:
  assumes "\<not> MONITOR_DOUBLE_BUFFERED cfg"
    and "LV_COLOR_DEPTH cfg = 24 \<or> LV_COLOR_DEPTH cfg = 32"
    and "rotated disp_drv = 0" "hor_res disp_drv = MONITOR_HOR_RES cfg"
      "ver_res disp_drv = MONITOR_VER_RES cfg"
    and "int (length (tft_fb (monitor w))) = MONITOR_VER_RES cfg * MONITOR_HOR_RES cfg"
    and "0 \<le> x1 area" "x1 area \<le> hor_res disp_drv - 1" "hor_res disp_drv - 1 < x2 area"
      "x2 area - x1 area < 32767"
    and "0 \<le> y1 area" "y1 area = y2 area" "y1 area < MONITOR_VER_RES cfg"
    and "nat (x2 area - x1 area + 1) \<le> length src"
  shows "\<not> out_of_screen disp_drv area
    \<and> (y1 area * MONITOR_HOR_RES cfg + x2 area < MONITOR_VER_RES cfg * MONITOR_HOR_RES cfg \<longrightarrow>
         (\<exists>w'. monitor_flush cfg disp_drv area color_p src w = Inr w'
            \<and> (\<forall>c. MONITOR_HOR_RES cfg \<le> c \<and> c \<le> x2 area \<longrightarrow>
                   tft_fb (monitor w') ! nat ((y1 area + 1) * MONITOR_HOR_RES cfg + (c - MONITOR_HOR_RES cfg))
                     = src ! nat (c - x1 area))))
    \<and> (y1 area = MONITOR_VER_RES cfg - 1 \<longrightarrow>
         monitor_flush cfg disp_drv area color_p src w
           = Inl (Write_out_of_bounds (y1 area * MONITOR_HOR_RES cfg + x1 area)))"
proof (intro conjI impI)
  let ?H = "MONITOR_HOR_RES cfg" and ?V = "MONITOR_VER_RES cfg" and ?fb = "tft_fb (monitor w)"
  let ?n = "nat (x2 area + 1 - x1 area)" and ?d = "y1 area * ?H + x1 area"
  show screen: "\<not> out_of_screen disp_drv area"
    using assms(3-5,7-9,11-13) by (simp add: out_of_screen_def)
  have w: "to_uint32 (lv_area_get_width area) = ?n"
    using assms(4,8-10) by (intro width_inside) simp_all
  have H: "0 < ?H" using assms(4,7,8) by simp
  have d0: "0 \<le> ?d" using assms(7,11) H by simp
  have copy: "flush_copy cfg area src ?fb =
      (case memcpy ?fb ?d src 0 ?n of Inl e \<Rightarrow> Inl e | Inr fb' \<Rightarrow> Inr fb')"
    using assms(2) flush_bulk_one_row [OF assms(12,13), of ?n src 0 ?fb]
    unfolding flush_copy_def Let_def w by (auto split: sum.splits)
  {
    assume room: "y1 area * ?H + x2 area < ?V * ?H"
    have dn: "?d + int ?n \<le> int (length ?fb)"
      using room assms(4,6,8,9) by simp
    have pn: "0 + ?n \<le> length src"
      using assms(14) by (simp add: algebra_simps)
    let ?fb' = "row_write ?fb (nat ?d) (take ?n (drop 0 src))"
    have row: "memcpy ?fb ?d src 0 ?n = Inr ?fb'"
      using d0 dn pn by (rule memcpy_row_write)
    let ?w = "call (Lv_disp_flush_ready disp_drv)
                (set_sdl_refr_qry Monitor True (w\<lparr>monitor := (monitor w)\<lparr>tft_fb := ?fb'\<rparr>\<rparr>))"
    have run: "monitor_flush cfg disp_drv area color_p src w = Inr ?w"
      using assms(1) screen copy row by (simp add: monitor_flush_def)
    have lvs: "length (take ?n (drop 0 src)) = ?n" using pn by simp
    have fits: "nat ?d + length (take ?n (drop 0 src)) \<le> length ?fb"
      unfolding lvs using d0 dn by linarith
    have cells: "tft_fb (monitor ?w) ! nat ((y1 area + 1) * ?H + (c - ?H)) = src ! nat (c - x1 area)"
      if c: "?H \<le> c \<and> c \<le> x2 area" for c
    proof -
      let ?k = "nat ((y1 area + 1) * ?H + (c - ?H))"
      have k: "?k = nat ?d + nat (c - x1 area)"
        using c d0 assms(4,8) by (simp add: algebra_simps nat_add_distrib [symmetric])
      have j: "nat (c - x1 area) < ?n" using c assms(4,8) by simp
      have kl: "?k < length ?fb"
        unfolding k using fits [unfolded lvs] j by linarith
      have inside: "nat ?d \<le> ?k \<and> ?k < nat ?d + length (take ?n (drop 0 src))"
        unfolding k lvs using j by simp
      have off: "?k - nat ?d = nat (c - x1 area)"
        unfolding k by simp
      have "?fb' ! ?k = take ?n (drop 0 src) ! (?k - nat ?d)"
        unfolding nth_row_write [OF fits kl] if_P [OF inside] ..
      also have "\<dots> = src ! nat (c - x1 area)"
        unfolding off using j by simp
      finally show ?thesis by simp
    qed
    show "\<exists>w'. monitor_flush cfg disp_drv area color_p src w = Inr w'
            \<and> (\<forall>c. ?H \<le> c \<and> c \<le> x2 area \<longrightarrow>
                   tft_fb (monitor w') ! nat ((y1 area + 1) * ?H + (c - ?H)) = src ! nat (c - x1 area))"
      using run cells by blast
  }
  {
    assume bottom: "y1 area = ?V - 1"
    have "?d + int ?n = (?V - 1) * ?H + x2 area + 1"
      using bottom assms(4,8,9) by simp
    also have "\<dots> > (?V - 1) * ?H + ?H" using assms(4,9) by simp
    also have "(?V - 1) * ?H + ?H = ?V * ?H" by (simp add: algebra_simps)
    finally have "int (length ?fb) < ?d + int ?n" using assms(6) by simp
    then have row: "memcpy ?fb ?d src 0 ?n = Inl (Write_out_of_bounds ?d)"
      by (simp add: memcpy_def)
    show "monitor_flush cfg disp_drv area color_p src w = Inl (Write_out_of_bounds ?d)"
      using assms(1) screen copy row by (simp add: monitor_flush_def)
  }
qed

theorem flush_bulk_crosses_right_edge_witness:
  "\<not> out_of_screen small_drv \<lparr>x1 = 3, y1 = 0, x2 = 4, y2 = 0\<rparr>
   \<and> (\<exists>w'. monitor_flush small_cfg small_drv \<lparr>x1 = 3, y1 = 0, x2 = 4, y2 = 0\<rparr> 1 [7, 8]
             (start_world [0, 0, 0, 0, 0, 0, 0, 0]) = Inr w'
         \<and> tft_fb (monitor w') ! 4 = 8)
   \<and> monitor_flush small_cfg small_drv \<lparr>x1 = 3, y1 = 1, x2 = 4, y2 = 1\<rparr> 1 [7, 8]
        (start_world [0, 0, 0, 0, 0, 0, 0, 0]) = Inl (Write_out_of_bounds 7)"
proof -
  let ?a = "\<lparr>x1 = 3, y1 = 0, x2 = 4, y2 = 0\<rparr>" and ?b = "\<lparr>x1 = 3, y1 = 1, x2 = 4, y2 = 1\<rparr>"
  let ?w = "start_world [0, 0, 0, 0, 0, 0, 0, 0]"
  have cfg: "\<not> MONITOR_DOUBLE_BUFFERED small_cfg"
      "LV_COLOR_DEPTH small_cfg = 24 \<or> LV_COLOR_DEPTH small_cfg = 32"
      "rotated small_drv = 0" "hor_res small_drv = MONITOR_HOR_RES small_cfg"
      "ver_res small_drv = MONITOR_VER_RES small_cfg"
      "int (length (tft_fb (monitor ?w))) = MONITOR_VER_RES small_cfg * MONITOR_HOR_RES small_cfg"
    by (simp_all add: small_cfg_def example_cfg_def small_drv_def start_world_def blank_monitor_def)
  have a: "0 \<le> x1 ?a" "x1 ?a \<le> hor_res small_drv - 1" "hor_res small_drv - 1 < x2 ?a"
      "x2 ?a - x1 ?a < 32767" "0 \<le> y1 ?a" "y1 ?a = y2 ?a" "y1 ?a < MONITOR_VER_RES small_cfg"
      "nat (x2 ?a - x1 ?a + 1) \<le> length [7, 8 :: lv_color_t]"
    by (simp_all add: small_cfg_def example_cfg_def small_drv_def)
  have b: "0 \<le> x1 ?b" "x1 ?b \<le> hor_res small_drv - 1" "hor_res small_drv - 1 < x2 ?b"
      "x2 ?b - x1 ?b < 32767" "0 \<le> y1 ?b" "y1 ?b = y2 ?b" "y1 ?b < MONITOR_VER_RES small_cfg"
      "nat (x2 ?b - x1 ?b + 1) \<le> length [7, 8 :: lv_color_t]"
    by (simp_all add: small_cfg_def example_cfg_def small_drv_def)
  have res: "MONITOR_HOR_RES small_cfg = 4" "MONITOR_VER_RES small_cfg = 2"
    by (simp_all add: small_cfg_def example_cfg_def)
  note ta = flush_bulk_crosses_right_edge [OF cfg a, of 1]
  note tb = flush_bulk_crosses_right_edge [OF cfg b, of 1]
  from ta have "\<not> out_of_screen small_drv ?a" by blast
  moreover from ta obtain w' where "monitor_flush small_cfg small_drv ?a 1 [7, 8] ?w = Inr w'"
    and "\<forall>c. 4 \<le> c \<and> c \<le> 4 \<longrightarrow> tft_fb (monitor w') ! nat ((0 + 1) * 4 + (c - 4)) = [7, 8] ! nat (c - 3)"
    by (auto simp: res)
  then have "\<exists>w'. monitor_flush small_cfg small_drv ?a 1 [7, 8] ?w = Inr w' \<and> tft_fb (monitor w') ! 4 = 8"
    by (auto dest: spec [of _ 4])
  moreover from tb have "monitor_flush small_cfg small_drv ?b 1 [7, 8] ?w = Inl (Write_out_of_bounds 7)"
    by (simp add: res)
  ultimately show ?thesis by blast
qed

subsection \<open>One cycle of the presentation loop\<close>

lemma present_events_flag [simp]:
  "present_events cfg (m\<lparr>sdl_refr_qry := b\<rparr>) = present_events cfg m"
  by (simp add: present_events_def)

lemma event_events_flag [simp]:
  "event_events cfg (m\<lparr>sdl_refr_qry := b\<rparr>) m2 = event_events cfg m m2"
  "event_events cfg m (m2\<lparr>sdl_refr_qry := b\<rparr>) = event_events cfg m m2"
  by (rule ext, simp add: event_events_def)+

lemma window_update_eq:
  "window_update cfg m w = w\<lparr>trace := trace w @ present_events cfg (get_monitor m w)\<rparr>"
  by (simp add: window_update_def present_events_def call_def get_monitor_def Let_def
      split: monitor_id.splits)

lemma quit_filter_eq:
  "quit_filter ev w =
     w\<lparr>sdl_quit_qry := sdl_quit_qry w \<or> is_quit ev, trace := trace w @ filter_events ev\<rparr>"
  by (cases ev) (auto simp: quit_filter_def is_quit_def filter_events_def call_def)

lemma handle_event_eq:
  "handle_event cfg ev w = w\<lparr>trace := trace w @ event_events cfg (monitor w) (monitor2 w) ev\<rparr>"
  by (cases ev)
    (auto simp: handle_event_def event_events_def input_events_def is_exposed_def
      window_update_eq get_monitor_def call_def Let_def)

lemma poll_events_eq:
  "poll_events cfg evs w =
     w\<lparr>trace := trace w @ concat (map (event_events cfg (monitor w) (monitor2 w)) evs)\<rparr>"
  by (induction evs arbitrary: w) (simp_all add: handle_event_eq)

lemma sdl_filter_events_eq:
  "sdl_filter_events evs w =
     w\<lparr>sdl_quit_qry := sdl_quit_qry w \<or> (\<exists>ev \<in> set evs. is_quit ev),
       trace := trace w @ concat (map filter_events evs)\<rparr>"
  by (induction evs arbitrary: w) (auto simp: quit_filter_eq)

lemma sdl_poll_loop_eq:
  "sdl_poll_loop cfg w =
     (case sdl_pending w of
        [] \<Rightarrow> w
      | batch # rest \<Rightarrow>
          w\<lparr>sdl_quit_qry := sdl_quit_qry w \<or> (\<exists>ev \<in> set batch. is_quit ev),
            sdl_pending := rest,
            trace := trace w @ concat (map filter_events batch)
                       @ concat (map (event_events cfg (monitor w) (monitor2 w)) batch)\<rparr>)"
  by (simp add: sdl_poll_loop_def poll_events_eq sdl_filter_events_eq split: list.splits)

lemma refr_core_trace:
  "trace (monitor_sdl_refr_core cfg w) = trace w @ cycle_events cfg w"
  by (simp add: monitor_sdl_refr_core_def cycle_events_def polling_def window_update_eq
      sdl_poll_loop_eq get_monitor_def Let_def split: list.splits)

lemma refr_core_monitor:
  "monitor (monitor_sdl_refr_core cfg w) = (monitor w)\<lparr>sdl_refr_qry := False\<rparr>"
  by (simp add: monitor_sdl_refr_core_def window_update_eq sdl_poll_loop_eq Let_def
      split: list.splits)

lemma refr_core_monitor2:
  "monitor2 (monitor_sdl_refr_core cfg w) =
     (if MONITOR_DUAL cfg then (monitor2 w)\<lparr>sdl_refr_qry := False\<rparr> else monitor2 w)"
  by (simp add: monitor_sdl_refr_core_def window_update_eq sdl_poll_loop_eq Let_def
      split: list.splits)

lemma refr_core_quit:
  "sdl_quit_qry (monitor_sdl_refr_core cfg w) \<longleftrightarrow>
     sdl_quit_qry w \<or> (polling cfg \<and> sdl_pending w \<noteq> [] \<and> (\<exists>ev \<in> set (hd (sdl_pending w)). is_quit ev))"
  by (auto simp: monitor_sdl_refr_core_def window_update_eq sdl_poll_loop_eq polling_def Let_def
      split: list.splits)

lemma refr_core_pending:
  "sdl_pending (monitor_sdl_refr_core cfg w) = (if polling cfg then tl (sdl_pending w) else sdl_pending w)"
  by (simp add: monitor_sdl_refr_core_def window_update_eq sdl_poll_loop_eq polling_def Let_def
      split: list.splits)

lemma render_input_events: "e \<in> set (input_events cfg ev) \<Longrightarrow> \<not> is_render e"
  by (auto simp: input_events_def split: if_splits)

lemma render_filter_events: "e \<in> set (filter_events ev) \<Longrightarrow> \<not> is_render e"
  by (auto simp: filter_events_def split: if_splits)

lemma render_event_events:
  assumes "e \<in> set (event_events cfg m m2 ev)" "is_render e"
  shows "e \<in> set (present_events cfg m) \<or> (MONITOR_DUAL cfg \<and> e \<in> set (present_events cfg m2))"
  using assms render_input_events [of e cfg ev]
  by (auto simp: event_events_def split: if_splits)

lemma render_cycle_events:
  assumes "e \<in> set (cycle_events cfg w)" "is_render e"
  shows "e \<in> set (present_events cfg (monitor w))
     \<or> (MONITOR_DUAL cfg \<and> e \<in> set (present_events cfg (monitor2 w)))"
proof -
  let ?A = "if sdl_refr_qry (monitor w)
      then Store_sdl_refr_qry Monitor False # present_events cfg (monitor w) else []"
  let ?B = "if MONITOR_DUAL cfg \<and> sdl_refr_qry (monitor2 w)
        then Store_sdl_refr_qry Monitor2 False # present_events cfg (monitor2 w) else []"
  let ?C = "if polling cfg then
          (case sdl_pending w of
             [] \<Rightarrow> []
           | batch # rest \<Rightarrow>
               concat (map filter_events batch)
               @ concat (map (event_events cfg (monitor w) (monitor2 w)) batch))
        else []"
  have "e \<in> set ?A \<or> e \<in> set ?B \<or> e \<in> set ?C \<or> e \<in> set [SDL_Delay SDL_REFR_PERIOD]"
    using assms(1) unfolding cycle_events_def set_append Un_iff .
  then show ?thesis
  proof (elim disjE)
    assume "e \<in> set ?A"
    with assms(2) show ?thesis by (auto split: if_splits)
  next
    assume "e \<in> set ?B"
    with assms(2) show ?thesis by (auto split: if_splits)
  next
    assume c: "e \<in> set ?C"
    show ?thesis
    proof (cases "polling cfg")
      case False
      with c show ?thesis by simp
    next
      case True
      with c have c': "e \<in> set (case sdl_pending w of
             [] \<Rightarrow> []
           | batch # rest \<Rightarrow>
               concat (map filter_events batch)
               @ concat (map (event_events cfg (monitor w) (monitor2 w)) batch))"
        by (simp only: if_True)
      show ?thesis
      proof (cases "sdl_pending w")
        case Nil
        with c' show ?thesis by simp
      next
        case (Cons batch rest)
        with c' have "(\<exists>ev \<in> set batch. e \<in> set (filter_events ev))
            \<or> (\<exists>ev \<in> set batch. e \<in> set (event_events cfg (monitor w) (monitor2 w) ev))"
          by auto
        with assms(2) show ?thesis
          using render_filter_events render_event_events by blast
      qed
    qed
  next
    assume "e \<in> set [SDL_Delay SDL_REFR_PERIOD]"
    with assms(2) show ?thesis by simp
  qed
qed

lemma present_events_null:
  "MONITOR_DOUBLE_BUFFERED cfg \<Longrightarrow> SDL_UpdateTexture t (Pixel_ptr NULL) n \<notin> set (present_events cfg m)"
  by (auto simp: present_events_def)

text \<open>
  C6. In double-buffered mode with the borrowed pointer of \<open>monitor\<close> still \<open>NULL\<close>,
  \<open>window_update\<close> on it returns without any effect, and a whole cycle changes nothing
  of \<open>monitor\<close> but its pending-refresh flag, which is false afterwards. Every drawing
  call of the cycle belongs to the presentation of \<open>monitor2\<close> (so there is none
  without \<open>MONITOR_DUAL\<close>), and no call of \<open>SDL_UpdateTexture\<close> in the cycle is
  given a \<open>NULL\<close> pixel pointer.
\<close>

theorem window_update_null:
  assumes "MONITOR_DOUBLE_BUFFERED cfg" and "tft_fb_act (monitor w) = NULL"
  shows "window_update cfg Monitor w = w
    \<and> monitor (monitor_sdl_refr_core cfg w) = (monitor w)\<lparr>sdl_refr_qry := False\<rparr>
    \<and> (\<exists>es. trace (monitor_sdl_refr_core cfg w) = trace w @ es
          \<and> (\<forall>e \<in> set es. is_render e \<longrightarrow>
                MONITOR_DUAL cfg \<and> e \<in> set (present_events cfg (monitor2 w)))
          \<and> (\<forall>t n. SDL_UpdateTexture t (Pixel_ptr NULL) n \<notin> set es))"
proof (intro conjI)
  show "window_update cfg Monitor w = w"
    using assms by (simp add: window_update_def get_monitor_def)
  show "monitor (monitor_sdl_refr_core cfg w) = (monitor w)\<lparr>sdl_refr_qry := False\<rparr>"
    by (rule refr_core_monitor)
  show "\<exists>es. trace (monitor_sdl_refr_core cfg w) = trace w @ es
          \<and> (\<forall>e \<in> set es. is_render e \<longrightarrow>
                MONITOR_DUAL cfg \<and> e \<in> set (present_events cfg (monitor2 w)))
          \<and> (\<forall>t n. SDL_UpdateTexture t (Pixel_ptr NULL) n \<notin> set es)"
  proof (intro exI conjI ballI impI allI)
    show "trace (monitor_sdl_refr_core cfg w) = trace w @ cycle_events cfg w"
      by (rule refr_core_trace)
    have none: "present_events cfg (monitor w) = []"
      using assms by (simp add: present_events_def)
    show "MONITOR_DUAL cfg" "e \<in> set (present_events cfg (monitor2 w))"
      if "e \<in> set (cycle_events cfg w)" "is_render e" for e
      using render_cycle_events [OF that] none by simp_all
    show "SDL_UpdateTexture t (Pixel_ptr NULL) n \<notin> set (cycle_events cfg w)" for t n
      using render_cycle_events [of "SDL_UpdateTexture t (Pixel_ptr NULL) n" cfg w]
        present_events_null [OF assms(1)] by auto
  qed
qed

theorem window_update_null_witness:
  "window_update double_cfg Monitor ((start_world [])\<lparr>sdl_pending := [[SDL_WINDOWEVENT SDL_WINDOWEVENT_EXPOSED]]\<rparr>)
     = (start_world [])\<lparr>sdl_pending := [[SDL_WINDOWEVENT SDL_WINDOWEVENT_EXPOSED]]\<rparr>
   \<and> trace (monitor_sdl_refr_core double_cfg
         ((start_world [])\<lparr>sdl_pending := [[SDL_WINDOWEVENT SDL_WINDOWEVENT_EXPOSED]]\<rparr>))
     = [Mouse_handler (SDL_WINDOWEVENT SDL_WINDOWEVENT_EXPOSED),
        Mousewheel_handler (SDL_WINDOWEVENT SDL_WINDOWEVENT_EXPOSED),
        Keyboard_handler (SDL_WINDOWEVENT SDL_WINDOWEVENT_EXPOSED),
        SDL_Delay 50]"
proof -
  let ?w = "(start_world [])\<lparr>sdl_pending := [[SDL_WINDOWEVENT SDL_WINDOWEVENT_EXPOSED]]\<rparr>"
  have h: "MONITOR_DOUBLE_BUFFERED double_cfg" "tft_fb_act (monitor ?w) = NULL"
    by (simp_all add: double_cfg_def small_cfg_def example_cfg_def start_world_def blank_monitor_def)
  have "window_update double_cfg Monitor ?w = ?w"
    using window_update_null [OF h] by blast
  moreover have "trace (monitor_sdl_refr_core double_cfg ?w)
     = [Mouse_handler (SDL_WINDOWEVENT SDL_WINDOWEVENT_EXPOSED),
        Mousewheel_handler (SDL_WINDOWEVENT SDL_WINDOWEVENT_EXPOSED),
        Keyboard_handler (SDL_WINDOWEVENT SDL_WINDOWEVENT_EXPOSED),
        SDL_Delay 50]"
    by (simp add: refr_core_trace cycle_events_def polling_def event_events_def input_events_def
        filter_events_def is_quit_def is_exposed_def present_events_def SDL_REFR_PERIOD_def
        double_cfg_def small_cfg_def example_cfg_def start_world_def blank_monitor_def)
  ultimately show ?thesis by blast
qed

text \<open>
  C9. The event loop answers an exposure (\<open>SDL_WINDOWEVENT_EXPOSED\<close>, and
  \<open>SDL_WINDOWEVENT_TAKE_FOCUS\<close> where SDL has it) by calling \<open>window_update\<close> on
  \<open>monitor\<close> and, with \<open>MONITOR_DUAL\<close>, on \<open>monitor2\<close>, right after the input handlers
  and without reading a pending-refresh flag; a cycle that polls the queue and finds
  such an event in it contains these calls, whatever the flags are.
\<close>

theorem exposed_event_presents_all:
  assumes "ev = SDL_WINDOWEVENT SDL_WINDOWEVENT_EXPOSED
       \<or> (ev = SDL_WINDOWEVENT SDL_WINDOWEVENT_TAKE_FOCUS \<and> SDL_VERSION_ATLEAST_2_0_5 cfg)"
  shows "handle_event cfg ev w =
       (if MONITOR_DUAL cfg
        then window_update cfg Monitor2 (window_update cfg Monitor (w\<lparr>trace := trace w @ input_events cfg ev\<rparr>))
        else window_update cfg Monitor (w\<lparr>trace := trace w @ input_events cfg ev\<rparr>))
    \<and> trace (handle_event cfg ev w) =
         trace w @ input_events cfg ev @ present_events cfg (monitor w)
           @ (if MONITOR_DUAL cfg then present_events cfg (monitor2 w) else [])
    \<and> (\<not> MONITOR_APPLE cfg \<and> \<not> MONITOR_EMSCRIPTEN cfg \<and> sdl_pending w \<noteq> []
          \<and> ev \<in> set (hd (sdl_pending w)) \<longrightarrow>
        (\<exists>pre post. trace (monitor_sdl_refr_core cfg w) =
           trace w @ pre @ input_events cfg ev @ present_events cfg (monitor w)
             @ (if MONITOR_DUAL cfg then present_events cfg (monitor2 w) else []) @ post))"
proof (intro conjI impI)
  have ex: "is_exposed cfg ev" using assms by (simp add: is_exposed_def)
  let ?p = "present_events cfg (monitor w) @ (if MONITOR_DUAL cfg then present_events cfg (monitor2 w) else [])"
  have ee: "event_events cfg (monitor w) (monitor2 w) ev = input_events cfg ev @ ?p"
    using ex by (simp add: event_events_def)
  show "handle_event cfg ev w =
       (if MONITOR_DUAL cfg
        then window_update cfg Monitor2 (window_update cfg Monitor (w\<lparr>trace := trace w @ input_events cfg ev\<rparr>))
        else window_update cfg Monitor (w\<lparr>trace := trace w @ input_events cfg ev\<rparr>))"
    by (simp add: handle_event_eq ee window_update_eq get_monitor_def)
  show "trace (handle_event cfg ev w) =
         trace w @ input_events cfg ev @ present_events cfg (monitor w)
           @ (if MONITOR_DUAL cfg then present_events cfg (monitor2 w) else [])"
    by (simp add: handle_event_eq ee)
  assume a: "\<not> MONITOR_APPLE cfg \<and> \<not> MONITOR_EMSCRIPTEN cfg \<and> sdl_pending w \<noteq> []
          \<and> ev \<in> set (hd (sdl_pending w))"
  then obtain batch rest where pend: "sdl_pending w = batch # rest" and "ev \<in> set batch"
    by (cases "sdl_pending w") auto
  then obtain b1 b2 where batch: "batch = b1 @ ev # b2"
    by (auto simp: in_set_conv_decomp)
  let ?E = "event_events cfg (monitor w) (monitor2 w)"
  let ?pre = "(if sdl_refr_qry (monitor w)
      then Store_sdl_refr_qry Monitor False # present_events cfg (monitor w) else [])
     @ (if MONITOR_DUAL cfg \<and> sdl_refr_qry (monitor2 w)
        then Store_sdl_refr_qry Monitor2 False # present_events cfg (monitor2 w) else [])
     @ concat (map filter_events batch) @ concat (map ?E b1)"
  let ?post = "concat (map ?E b2) @ [SDL_Delay SDL_REFR_PERIOD]"
  have poll: "polling cfg" using a by (simp add: polling_def)
  have "cycle_events cfg w = ?pre @ input_events cfg ev @ ?p @ ?post"
    unfolding cycle_events_def pend list.case if_P [OF poll]
    by (simp add: batch ee)
  then have "trace (monitor_sdl_refr_core cfg w) =
      trace w @ ?pre @ input_events cfg ev @ present_events cfg (monitor w)
        @ (if MONITOR_DUAL cfg then present_events cfg (monitor2 w) else []) @ ?post"
    unfolding refr_core_trace by simp
  then show "\<exists>pre post. trace (monitor_sdl_refr_core cfg w) =
           trace w @ pre @ input_events cfg ev @ present_events cfg (monitor w)
             @ (if MONITOR_DUAL cfg then present_events cfg (monitor2 w) else []) @ post"
    by blast
qed

theorem exposed_event_presents_all_witness:
  "\<not> sdl_refr_qry (monitor ((start_world [0, 0, 0, 0, 0, 0, 0, 0])
        \<lparr>sdl_pending := [[SDL_WINDOWEVENT SDL_WINDOWEVENT_EXPOSED]]\<rparr>))
   \<and> (\<exists>pre post. trace (monitor_sdl_refr_core small_cfg ((start_world [0, 0, 0, 0, 0, 0, 0, 0])
          \<lparr>sdl_pending := [[SDL_WINDOWEVENT SDL_WINDOWEVENT_EXPOSED]]\<rparr>)) =
        pre @ [Mouse_handler (SDL_WINDOWEVENT SDL_WINDOWEVENT_EXPOSED),
               Mousewheel_handler (SDL_WINDOWEVENT SDL_WINDOWEVENT_EXPOSED),
               Keyboard_handler (SDL_WINDOWEVENT SDL_WINDOWEVENT_EXPOSED),
               SDL_UpdateTexture NULL (Pixel_data [0, 0, 0, 0, 0, 0, 0, 0]) 16,
               SDL_RenderClear NULL, SDL_RenderCopy NULL NULL, SDL_RenderPresent NULL] @ post)"
proof -
  let ?ev = "SDL_WINDOWEVENT SDL_WINDOWEVENT_EXPOSED"
  let ?w = "(start_world [0, 0, 0, 0, 0, 0, 0, 0])\<lparr>sdl_pending := [[?ev]]\<rparr>"
  have ev: "?ev = SDL_WINDOWEVENT SDL_WINDOWEVENT_EXPOSED
       \<or> (?ev = SDL_WINDOWEVENT SDL_WINDOWEVENT_TAKE_FOCUS \<and> SDL_VERSION_ATLEAST_2_0_5 small_cfg)"
    by simp
  have poll: "\<not> MONITOR_APPLE small_cfg \<and> \<not> MONITOR_EMSCRIPTEN small_cfg \<and> sdl_pending ?w \<noteq> []
          \<and> ?ev \<in> set (hd (sdl_pending ?w))"
    by (simp add: small_cfg_def example_cfg_def)
  have vals: "trace ?w = []"
    "input_events small_cfg ?ev = [Mouse_handler ?ev, Mousewheel_handler ?ev, Keyboard_handler ?ev]"
    "present_events small_cfg (monitor ?w) =
       [SDL_UpdateTexture NULL (Pixel_data [0, 0, 0, 0, 0, 0, 0, 0]) 16,
        SDL_RenderClear NULL, SDL_RenderCopy NULL NULL, SDL_RenderPresent NULL]"
    "MONITOR_DUAL small_cfg = False" "\<not> sdl_refr_qry (monitor ?w)"
    by (simp_all add: start_world_def blank_monitor_def input_events_def present_events_def
        small_cfg_def example_cfg_def)
  from exposed_event_presents_all [OF ev, of ?w] poll
  obtain pre post where "trace (monitor_sdl_refr_core small_cfg ?w) =
           trace ?w @ pre @ input_events small_cfg ?ev @ present_events small_cfg (monitor ?w)
             @ (if MONITOR_DUAL small_cfg then present_events small_cfg (monitor2 ?w) else []) @ post"
    by blast
  then have "trace (monitor_sdl_refr_core small_cfg ?w) =
        pre @ [Mouse_handler ?ev, Mousewheel_handler ?ev, Keyboard_handler ?ev,
               SDL_UpdateTexture NULL (Pixel_data [0, 0, 0, 0, 0, 0, 0, 0]) 16,
               SDL_RenderClear NULL, SDL_RenderCopy NULL NULL, SDL_RenderPresent NULL] @ post"
    unfolding vals if_False by (simp only: append_Nil append_Nil2 append_Cons)
  with vals(5) show ?thesis by blast
qed

subsection \<open>Two flushes before a cycle\<close>

text \<open>
  The part of a cycle after the part of \<open>monitor\<close> does not store to the flag of
  \<open>monitor\<close>, and it draws only for \<open>monitor2\<close> or for a window event of the batch.
\<close>

lemma cycle_events_tail:
  "cycle_events cfg w =
     (if sdl_refr_qry (monitor w)
      then Store_sdl_refr_qry Monitor False # present_events cfg (monitor w) else [])
     @ cycle_tail cfg w"
  unfolding cycle_events_def cycle_tail_def ..

lemma present_events_render: "e \<in> set (present_events cfg m) \<Longrightarrow> is_render e"
  by (auto simp: present_events_def split: if_splits)

lemma cycle_tail_cases:
  assumes e: "e \<in> set (cycle_tail cfg w)"
  shows "(MONITOR_DUAL cfg \<and> sdl_refr_qry (monitor2 w)
           \<and> (e = Store_sdl_refr_qry Monitor2 False \<or> e \<in> set (present_events cfg (monitor2 w))))
     \<or> (polling cfg \<and> sdl_pending w \<noteq> []
           \<and> (\<exists>ev \<in> set (hd (sdl_pending w)).
                 e \<in> set (filter_events ev)
                 \<or> e \<in> set (event_events cfg (monitor w) (monitor2 w) ev)))
     \<or> e = SDL_Delay SDL_REFR_PERIOD"
proof -
  let ?B = "if MONITOR_DUAL cfg \<and> sdl_refr_qry (monitor2 w)
        then Store_sdl_refr_qry Monitor2 False # present_events cfg (monitor2 w) else []"
  let ?C = "if polling cfg then
          (case sdl_pending w of
             [] \<Rightarrow> []
           | batch # rest \<Rightarrow>
               concat (map filter_events batch)
               @ concat (map (event_events cfg (monitor w) (monitor2 w)) batch))
        else []"
  have "e \<in> set ?B \<or> e \<in> set ?C \<or> e \<in> set [SDL_Delay SDL_REFR_PERIOD]"
    using e unfolding cycle_tail_def set_append Un_iff .
  then show ?thesis
  proof (elim disjE)
    assume b: "e \<in> set ?B"
    show ?thesis
    proof (cases "MONITOR_DUAL cfg \<and> sdl_refr_qry (monitor2 w)")
      case True
      from b have "e \<in> set (Store_sdl_refr_qry Monitor2 False # present_events cfg (monitor2 w))"
        unfolding if_P [OF True] .
      with True show ?thesis by auto
    next
      case False
      from b have "e \<in> set []" unfolding if_not_P [OF False] .
      then show ?thesis by simp
    qed
  next
    assume c: "e \<in> set ?C"
    show ?thesis
    proof (cases "polling cfg")
      case False
      with c have "e \<in> set []" by (simp only: if_False)
      then show ?thesis by simp
    next
      case True
      with c have c': "e \<in> set (case sdl_pending w of
             [] \<Rightarrow> []
           | batch # rest \<Rightarrow>
               concat (map filter_events batch)
               @ concat (map (event_events cfg (monitor w) (monitor2 w)) batch))"
        by (simp only: if_True)
      show ?thesis
      proof (cases "sdl_pending w")
        case Nil
        with c' show ?thesis by simp
      next
        case (Cons batch rest)
        with c' have "\<exists>ev \<in> set batch. e \<in> set (filter_events ev)
            \<or> e \<in> set (event_events cfg (monitor w) (monitor2 w) ev)"
          by auto
        with True Cons show ?thesis by simp
      qed
    qed
  next
    assume "e \<in> set [SDL_Delay SDL_REFR_PERIOD]"
    then show ?thesis by simp
  qed
qed

lemma cycle_tail_no_clear: "Store_sdl_refr_qry Monitor False \<notin> set (cycle_tail cfg w)"
proof
  let ?e = "Store_sdl_refr_qry Monitor False"
  assume "?e \<in> set (cycle_tail cfg w)"
  note c = cycle_tail_cases [OF this]
  have p: "?e \<notin> set (present_events cfg m)" for m
    using present_events_render [of ?e cfg m] by auto
  have f: "?e \<notin> set (filter_events ev)" for ev
    by (simp add: filter_events_def)
  have i: "?e \<notin> set (input_events cfg ev)" for ev
    by (simp add: input_events_def)
  have ee: "?e \<notin> set (event_events cfg m m2 ev)" for m m2 ev
    using p i by (simp add: event_events_def)
  from c p f ee show False
    by (auto simp: SDL_REFR_PERIOD_def)
qed

lemma cycle_tail_render:
  assumes "e \<in> set (cycle_tail cfg w)" "is_render e"
    and "\<not> polling cfg \<or> sdl_pending w = [] \<or> (\<forall>ev \<in> set (hd (sdl_pending w)). \<not> is_exposed cfg ev)"
  shows "MONITOR_DUAL cfg \<and> sdl_refr_qry (monitor2 w) \<and> e \<in> set (present_events cfg (monitor2 w))"
proof -
  note c = cycle_tail_cases [OF assms(1)]
  have ee: "\<not> is_exposed cfg ev \<Longrightarrow> e \<notin> set (event_events cfg m m2 ev)" for m m2 ev
    using render_input_events [of e cfg ev] assms(2) by (auto simp: event_events_def)
  from c assms(2,3) ee render_filter_events [of e] show ?thesis
    by (auto simp: SDL_REFR_PERIOD_def)
qed

text \<open>
  C7, as the code has it. After two calls of \<open>monitor_flush\<close> in a row that both
  return, the second with a rectangle that is not rejected, the pending-refresh flag is
  true and the surface holds the data of the second call: its pointer in double-buffered
  mode, and in single-buffered mode the buffer that the second copy made of the buffer
  the first call left. The next cycle stores false to the flag, presents that data, and
  stores false to the flag of \<open>monitor\<close> no second time; the flag is false after the
  cycle. Every further drawing call of the cycle is a call of the presentation of
  \<open>monitor\<close> in this same state or one of \<open>monitor2\<close>; and when the cycle polls no
  window event that exposes a window, the further drawing calls are those of the one
  presentation of \<open>monitor2\<close>, made when its own flag is set: \<open>monitor\<close> is presented
  once.
\<close>

theorem flush_twice_then_cycle:
  assumes "monitor_flush cfg drv1 area1 cp1 src1 w = Inr wa"
    and "monitor_flush cfg drv2 area2 cp2 src2 wa = Inr wb"
    and "\<not> out_of_screen drv2 area2"
  shows "sdl_refr_qry (monitor wb)
    \<and> (MONITOR_DOUBLE_BUFFERED cfg \<longrightarrow> tft_fb_act (monitor wb) = cp2)
    \<and> (\<not> MONITOR_DOUBLE_BUFFERED cfg \<longrightarrow>
         flush_copy cfg area2 src2 (tft_fb (monitor wa)) = Inr (tft_fb (monitor wb)))
    \<and> (\<exists>post. trace (monitor_sdl_refr_core cfg wb) =
          trace wb @ Store_sdl_refr_qry Monitor False # present_events cfg (monitor wb) @ post
        \<and> Store_sdl_refr_qry Monitor False \<notin> set post
        \<and> (\<forall>e \<in> set post. is_render e \<longrightarrow>
              e \<in> set (present_events cfg (monitor wb))
              \<or> (MONITOR_DUAL cfg \<and> e \<in> set (present_events cfg (monitor2 wb))))
        \<and> (\<not> polling cfg \<or> sdl_pending wb = []
              \<or> (\<forall>ev \<in> set (hd (sdl_pending wb)). \<not> is_exposed cfg ev) \<longrightarrow>
            (\<forall>e \<in> set post. is_render e \<longrightarrow>
               MONITOR_DUAL cfg \<and> sdl_refr_qry (monitor2 wb)
               \<and> e \<in> set (present_events cfg (monitor2 wb)))))
    \<and> \<not> sdl_refr_qry (monitor (monitor_sdl_refr_core cfg wb))"
proof (intro conjI impI)
  show flag: "sdl_refr_qry (monitor wb)"
    using assms(2,3) by (auto simp: monitor_flush_def Let_def split: if_splits sum.splits)
  show "tft_fb_act (monitor wb) = cp2" if "MONITOR_DOUBLE_BUFFERED cfg"
    using assms(2,3) that by (auto simp: monitor_flush_def Let_def split: if_splits sum.splits)
  show "flush_copy cfg area2 src2 (tft_fb (monitor wa)) = Inr (tft_fb (monitor wb))"
    if "\<not> MONITOR_DOUBLE_BUFFERED cfg"
    using assms(2,3) that by (auto simp: monitor_flush_def Let_def split: if_splits sum.splits)
  have ce: "cycle_events cfg wb =
      Store_sdl_refr_qry Monitor False # present_events cfg (monitor wb) @ cycle_tail cfg wb"
    unfolding cycle_events_tail if_P [OF flag] by (simp only: append_Cons)
  have sub: "set (cycle_tail cfg wb) \<subseteq> set (cycle_events cfg wb)"
    unfolding ce list.set(2) set_append by blast
  show "\<exists>post. trace (monitor_sdl_refr_core cfg wb) =
          trace wb @ Store_sdl_refr_qry Monitor False # present_events cfg (monitor wb) @ post
        \<and> Store_sdl_refr_qry Monitor False \<notin> set post
        \<and> (\<forall>e \<in> set post. is_render e \<longrightarrow>
              e \<in> set (present_events cfg (monitor wb))
              \<or> (MONITOR_DUAL cfg \<and> e \<in> set (present_events cfg (monitor2 wb))))
        \<and> (\<not> polling cfg \<or> sdl_pending wb = []
              \<or> (\<forall>ev \<in> set (hd (sdl_pending wb)). \<not> is_exposed cfg ev) \<longrightarrow>
            (\<forall>e \<in> set post. is_render e \<longrightarrow>
               MONITOR_DUAL cfg \<and> sdl_refr_qry (monitor2 wb)
               \<and> e \<in> set (present_events cfg (monitor2 wb))))"
  proof (intro exI conjI ballI impI)
    show "trace (monitor_sdl_refr_core cfg wb) =
          trace wb @ Store_sdl_refr_qry Monitor False # present_events cfg (monitor wb)
            @ cycle_tail cfg wb"
      unfolding refr_core_trace ce ..
    show "Store_sdl_refr_qry Monitor False \<notin> set (cycle_tail cfg wb)"
      by (rule cycle_tail_no_clear)
    show "e \<in> set (present_events cfg (monitor wb))
              \<or> (MONITOR_DUAL cfg \<and> e \<in> set (present_events cfg (monitor2 wb)))"
      if "e \<in> set (cycle_tail cfg wb)" "is_render e" for e
      using that sub render_cycle_events [of e cfg wb] by blast
    fix e
    assume quiet: "\<not> polling cfg \<or> sdl_pending wb = []
              \<or> (\<forall>ev \<in> set (hd (sdl_pending wb)). \<not> is_exposed cfg ev)"
      and e: "e \<in> set (cycle_tail cfg wb)" "is_render e"
    from cycle_tail_render [OF e quiet]
    show "MONITOR_DUAL cfg" "sdl_refr_qry (monitor2 wb)"
      "e \<in> set (present_events cfg (monitor2 wb))"
      by blast+
  qed
  show "\<not> sdl_refr_qry (monitor (monitor_sdl_refr_core cfg wb))"
    by (simp add: refr_core_monitor)
qed

theorem flush_twice_then_cycle_witness:
  "on_result (sdl_refr_qry \<circ> monitor)
     (and_then (monitor_flush double_cfg small_drv \<lparr>x1 = 0, y1 = 0, x2 = 1, y2 = 1\<rparr> 16 [] (start_world []))
        (monitor_flush double_cfg small_drv \<lparr>x1 = 2, y1 = 0, x2 = 3, y2 = 1\<rparr> 32 [])) = Inr True
   \<and> on_result (tft_fb_act \<circ> monitor)
     (and_then (monitor_flush double_cfg small_drv \<lparr>x1 = 0, y1 = 0, x2 = 1, y2 = 1\<rparr> 16 [] (start_world []))
        (monitor_flush double_cfg small_drv \<lparr>x1 = 2, y1 = 0, x2 = 3, y2 = 1\<rparr> 32 [])) = Inr 32
   \<and> on_result (trace \<circ> monitor_sdl_refr_core double_cfg)
     (and_then (monitor_flush double_cfg small_drv \<lparr>x1 = 0, y1 = 0, x2 = 1, y2 = 1\<rparr> 16 [] (start_world []))
        (monitor_flush double_cfg small_drv \<lparr>x1 = 2, y1 = 0, x2 = 3, y2 = 1\<rparr> 32 []))
     = Inr [Store_sdl_refr_qry Monitor True, Lv_disp_flush_ready small_drv,
            Store_sdl_refr_qry Monitor True, Lv_disp_flush_ready small_drv,
            Store_sdl_refr_qry Monitor False,
            SDL_UpdateTexture NULL (Pixel_ptr 32) 16, SDL_RenderClear NULL,
            SDL_RenderCopy NULL NULL, SDL_RenderPresent NULL, SDL_Delay 50]"
proof -
  let ?a = "\<lparr>x1 = 0, y1 = 0, x2 = 1, y2 = 1\<rparr>" and ?b = "\<lparr>x1 = 2, y1 = 0, x2 = 3, y2 = 1\<rparr>"
  have dbl: "MONITOR_DOUBLE_BUFFERED double_cfg"
    by (simp add: double_cfg_def)
  have scr: "\<not> out_of_screen small_drv ?a" "\<not> out_of_screen small_drv ?b"
    by (simp_all add: out_of_screen_def small_drv_def)
  obtain wa where wa: "monitor_flush double_cfg small_drv ?a 16 [] (start_world []) = Inr wa"
    using dbl scr by (simp add: monitor_flush_def)
  obtain wb where wb: "monitor_flush double_cfg small_drv ?b 32 [] wa = Inr wb"
    using dbl scr by (simp add: monitor_flush_def)
  from flush_twice_then_cycle [OF wa wb scr(2)] dbl
  have "sdl_refr_qry (monitor wb)" "tft_fb_act (monitor wb) = 32"
    by blast+
  moreover have "on_result (trace \<circ> monitor_sdl_refr_core double_cfg)
     (and_then (monitor_flush double_cfg small_drv ?a 16 [] (start_world []))
        (monitor_flush double_cfg small_drv ?b 32 []))
     = Inr [Store_sdl_refr_qry Monitor True, Lv_disp_flush_ready small_drv,
            Store_sdl_refr_qry Monitor True, Lv_disp_flush_ready small_drv,
            Store_sdl_refr_qry Monitor False,
            SDL_UpdateTexture NULL (Pixel_ptr 32) 16, SDL_RenderClear NULL,
            SDL_RenderCopy NULL NULL, SDL_RenderPresent NULL, SDL_Delay 50]"
    by (simp add: on_result_def and_then_def monitor_flush_def out_of_screen_def small_drv_def
      double_cfg_def small_cfg_def example_cfg_def start_world_def blank_monitor_def
      refr_core_trace cycle_events_def present_events_def polling_def NULL_def SDL_REFR_PERIOD_def)
  ultimately show ?thesis
    unfolding and_then_def wa sum.case wb on_result_def by simp
qed

text \<open>
  C7 as stated covers every second call. When the second rectangle is off the screen,
  the callback returns early: in double-buffered mode the pointer stays that of the
  first call (16, not 32) and the next cycle presents it; and after two rejected
  flushes the flag is still false.
\<close>

theorem flush_twice_counterexample:
  "on_result (tft_fb_act \<circ> monitor)
     (and_then (monitor_flush double_cfg small_drv \<lparr>x1 = 0, y1 = 0, x2 = 1, y2 = 1\<rparr> 16 [] (start_world []))
        (monitor_flush double_cfg small_drv \<lparr>x1 = 4, y1 = 0, x2 = 5, y2 = 1\<rparr> 32 [])) = Inr 16
   \<and> on_result (trace \<circ> monitor_sdl_refr_core double_cfg)
     (and_then (monitor_flush double_cfg small_drv \<lparr>x1 = 0, y1 = 0, x2 = 1, y2 = 1\<rparr> 16 [] (start_world []))
        (monitor_flush double_cfg small_drv \<lparr>x1 = 4, y1 = 0, x2 = 5, y2 = 1\<rparr> 32 []))
     = Inr [Store_sdl_refr_qry Monitor True, Lv_disp_flush_ready small_drv,
            Lv_disp_flush_ready small_drv, Store_sdl_refr_qry Monitor False,
            SDL_UpdateTexture NULL (Pixel_ptr 16) 16, SDL_RenderClear NULL,
            SDL_RenderCopy NULL NULL, SDL_RenderPresent NULL, SDL_Delay 50]
   \<and> on_result (sdl_refr_qry \<circ> monitor)
     (and_then (monitor_flush double_cfg small_drv \<lparr>x1 = 4, y1 = 0, x2 = 5, y2 = 1\<rparr> 16 [] (start_world []))
        (monitor_flush double_cfg small_drv \<lparr>x1 = 4, y1 = 0, x2 = 5, y2 = 1\<rparr> 32 [])) = Inr False"
  by (simp add: on_result_def and_then_def monitor_flush_def out_of_screen_def small_drv_def
      double_cfg_def small_cfg_def example_cfg_def start_world_def blank_monitor_def
      refr_core_trace cycle_events_def present_events_def polling_def NULL_def SDL_REFR_PERIOD_def)

subsection \<open>The end of the thread\<close>

declare refr_loop.simps [simp del]

lemma refr_loop_runs:
  assumes "sdl_quit_qry ((monitor_sdl_refr_core cfg ^^ n) w)"
    and "\<forall>k<n. \<not> sdl_quit_qry ((monitor_sdl_refr_core cfg ^^ k) w)"
    and "n \<le> fuel"
  shows "refr_loop cfg fuel w = Some ((monitor_sdl_refr_core cfg ^^ n) w)"
  using assms
proof (induction n arbitrary: w fuel)
  case 0
  then show ?case by (subst refr_loop.simps) simp
next
  case (Suc n)
  from Suc.prems(2) have now: "\<not> sdl_quit_qry w" by force
  from Suc.prems(3) obtain fuel' where fuel: "fuel = Suc fuel'" and le: "n \<le> fuel'"
    by (cases fuel) auto
  let ?w = "monitor_sdl_refr_core cfg w"
  have q: "sdl_quit_qry ((monitor_sdl_refr_core cfg ^^ n) ?w)"
    using Suc.prems(1) by (simp add: funpow_swap1)
  have nq: "\<forall>k<n. \<not> sdl_quit_qry ((monitor_sdl_refr_core cfg ^^ k) ?w)"
  proof (intro allI impI)
    fix k assume "k < n"
    then have "Suc k < Suc n" by simp
    with Suc.prems(2) have "\<not> sdl_quit_qry ((monitor_sdl_refr_core cfg ^^ Suc k) w)"
      by blast
    then show "\<not> sdl_quit_qry ((monitor_sdl_refr_core cfg ^^ k) ?w)"
      by (simp add: funpow_swap1)
  qed
  have "refr_loop cfg fuel w = refr_loop cfg fuel' ?w"
    using now fuel by (subst refr_loop.simps) simp
  also have "\<dots> = Some ((monitor_sdl_refr_core cfg ^^ n) ?w)"
    using q nq le by (rule Suc.IH)
  finally show ?case by (simp add: funpow_swap1)
qed

lemma teardown_cycle_events: "e \<in> set (cycle_events cfg w) \<Longrightarrow> \<not> is_teardown e"
proof -
  assume e: "e \<in> set (cycle_events cfg w)"
  have p: "\<not> is_teardown x" if "x \<in> set (present_events cfg m)" for x m
    using that by (auto simp: present_events_def split: if_splits)
  have i: "\<not> is_teardown x" if "x \<in> set (input_events cfg ev)" for x ev
    using that by (auto simp: input_events_def split: if_splits)
  have f: "\<not> is_teardown x" if "x \<in> set (filter_events ev)" for x ev
    using that by (auto simp: filter_events_def split: if_splits)
  have ee: "\<not> is_teardown x" if "x \<in> set (event_events cfg m m2 ev)" for x m m2 ev
    using that p i by (auto simp: event_events_def split: if_splits)
  let ?A = "if sdl_refr_qry (monitor w)
      then Store_sdl_refr_qry Monitor False # present_events cfg (monitor w) else []"
  let ?B = "if MONITOR_DUAL cfg \<and> sdl_refr_qry (monitor2 w)
        then Store_sdl_refr_qry Monitor2 False # present_events cfg (monitor2 w) else []"
  let ?C = "if polling cfg then
          (case sdl_pending w of
             [] \<Rightarrow> []
           | batch # rest \<Rightarrow>
               concat (map filter_events batch)
               @ concat (map (event_events cfg (monitor w) (monitor2 w)) batch))
        else []"
  have "e \<in> set ?A \<or> e \<in> set ?B \<or> e \<in> set ?C \<or> e \<in> set [SDL_Delay SDL_REFR_PERIOD]"
    using e unfolding cycle_events_def set_append Un_iff .
  then show ?thesis
  proof (elim disjE)
    assume "e \<in> set ?A"
    then show ?thesis using p by (auto split: if_splits)
  next
    assume "e \<in> set ?B"
    then show ?thesis using p by (auto split: if_splits)
  next
    assume c: "e \<in> set ?C"
    show ?thesis
    proof (cases "polling cfg")
      case False
      with c show ?thesis by simp
    next
      case True
      with c have c': "e \<in> set (case sdl_pending w of
             [] \<Rightarrow> []
           | batch # rest \<Rightarrow>
               concat (map filter_events batch)
               @ concat (map (event_events cfg (monitor w) (monitor2 w)) batch))"
        by (simp only: if_True)
      show ?thesis
      proof (cases "sdl_pending w")
        case Nil
        with c' show ?thesis by simp
      next
        case (Cons batch rest)
        with c' have "(\<exists>ev \<in> set batch. e \<in> set (filter_events ev))
            \<or> (\<exists>ev \<in> set batch. e \<in> set (event_events cfg (monitor w) (monitor2 w) ev))"
          by auto
        then show ?thesis using f ee by blast
      qed
    qed
  next
    assume "e \<in> set [SDL_Delay SDL_REFR_PERIOD]"
    then show ?thesis by simp
  qed
qed

lemma cycles_teardown:
  "filter is_teardown (trace ((monitor_sdl_refr_core cfg ^^ n) w)) = filter is_teardown (trace w)"
proof (induction n)
  case 0
  show ?case by simp
next
  case (Suc n)
  have "filter is_teardown (cycle_events cfg ((monitor_sdl_refr_core cfg ^^ n) w)) = []"
    using teardown_cycle_events by (auto simp: filter_empty_conv)
  with Suc show ?case by (simp add: refr_core_trace)
qed

lemma cycles_handles:
  "texture (monitor ((monitor_sdl_refr_core cfg ^^ n) w)) = texture (monitor w)"
  "renderer (monitor ((monitor_sdl_refr_core cfg ^^ n) w)) = renderer (monitor w)"
  "window (monitor ((monitor_sdl_refr_core cfg ^^ n) w)) = window (monitor w)"
  "texture (monitor2 ((monitor_sdl_refr_core cfg ^^ n) w)) = texture (monitor2 w)"
  "renderer (monitor2 ((monitor_sdl_refr_core cfg ^^ n) w)) = renderer (monitor2 w)"
  "window (monitor2 ((monitor_sdl_refr_core cfg ^^ n) w)) = window (monitor2 w)"
  by (induction n) (simp_all add: refr_core_monitor refr_core_monitor2)

lemma clean_up_trace:
  "trace (monitor_sdl_clean_up cfg w) = trace w @ teardown_events cfg w"
  by (simp add: monitor_sdl_clean_up_def teardown_events_def Let_def)

lemma sdl_create_simps [simp]:
  "fst (sdl_create e w) = Suc (sdl_handles w)"
  "trace (snd (sdl_create e w)) = trace w @ [e]"
  "sdl_handles (snd (sdl_create e w)) = Suc (sdl_handles w)"
  "monitor (snd (sdl_create e w)) = monitor w"
  "monitor2 (snd (sdl_create e w)) = monitor2 w"
  by (simp_all add: sdl_create_def)

lemma window_create_teardown:
  assumes "window_create cfg m w = Inr w'"
  shows "filter is_teardown (trace w') = filter is_teardown (trace w)"
proof (cases m)
  case Monitor
  with assms show ?thesis
    by (cases "MONITOR_DOUBLE_BUFFERED cfg")
      (auto simp: window_create_def sdl_create_def put_monitor_def get_monitor_def Let_def
        split: sum.splits)
next
  case Monitor2
  with assms show ?thesis
    by (cases "MONITOR_DOUBLE_BUFFERED cfg")
      (auto simp: window_create_def sdl_create_def put_monitor_def get_monitor_def Let_def
        split: sum.splits)
qed

lemma window_create_handles:
  assumes "window_create cfg m w = Inr w'"
  shows "window (get_monitor m w') = sdl_handles w + 1"
    "renderer (get_monitor m w') = sdl_handles w + 2"
    "texture (get_monitor m w') = sdl_handles w + 3"
    "sdl_handles w' = sdl_handles w + 3"
    "m = Monitor \<Longrightarrow> monitor2 w' = monitor2 w"
    "m = Monitor2 \<Longrightarrow> monitor w' = monitor w"
    "sdl_pending w' = sdl_pending w" "sdl_quit_qry w' = sdl_quit_qry w"
proof -
  have "window (get_monitor m w') = sdl_handles w + 1
    \<and> renderer (get_monitor m w') = sdl_handles w + 2
    \<and> texture (get_monitor m w') = sdl_handles w + 3
    \<and> sdl_handles w' = sdl_handles w + 3
    \<and> (m = Monitor \<longrightarrow> monitor2 w' = monitor2 w)
    \<and> (m = Monitor2 \<longrightarrow> monitor w' = monitor w)
    \<and> sdl_pending w' = sdl_pending w \<and> sdl_quit_qry w' = sdl_quit_qry w"
  proof (cases m)
    case Monitor
    with assms show ?thesis
      by (cases "MONITOR_DOUBLE_BUFFERED cfg")
        (auto simp: window_create_def sdl_create_def put_monitor_def get_monitor_def Let_def
          split: sum.splits)
  next
    case Monitor2
    with assms show ?thesis
      by (cases "MONITOR_DOUBLE_BUFFERED cfg")
        (auto simp: window_create_def sdl_create_def put_monitor_def get_monitor_def Let_def
          split: sum.splits)
  qed
  then show "window (get_monitor m w') = sdl_handles w + 1"
    "renderer (get_monitor m w') = sdl_handles w + 2"
    "texture (get_monitor m w') = sdl_handles w + 3"
    "sdl_handles w' = sdl_handles w + 3"
    "m = Monitor \<Longrightarrow> monitor2 w' = monitor2 w"
    "m = Monitor2 \<Longrightarrow> monitor w' = monitor w"
    "sdl_pending w' = sdl_pending w" "sdl_quit_qry w' = sdl_quit_qry w"
    by blast+
qed


lemma monitor_sdl_init_teardown:
  assumes "monitor_sdl_init cfg w = Inr wi"
  shows "filter is_teardown (trace wi) = filter is_teardown (trace w)"
proof -
  let ?w0 = "call SDL_SetEventFilter (call SDL_Init w)"
  from assms obtain w1 where w1: "window_create cfg Monitor ?w0 = Inr w1"
    by (cases "window_create cfg Monitor ?w0") (simp_all add: monitor_sdl_init_def)
  have t1: "filter is_teardown (trace w1) = filter is_teardown (trace w)"
    using window_create_teardown [OF w1] by simp
  show ?thesis
  proof (cases "MONITOR_DUAL cfg")
    case False
    with assms w1 have "wi = call (Store_sdl_inited True) (w1\<lparr>sdl_inited := True\<rparr>)"
      by (simp add: monitor_sdl_init_def)
    with t1 show ?thesis by simp
  next
    case True
    with assms w1 obtain w2 where w2: "window_create cfg Monitor2 w1 = Inr w2"
      by (cases "window_create cfg Monitor2 w1") (simp_all add: monitor_sdl_init_def)
    have t2: "filter is_teardown (trace w2) = filter is_teardown (trace w)"
      using window_create_teardown [OF w2] t1 by simp
    from assms w1 w2 True show ?thesis
      by (auto simp: monitor_sdl_init_def Let_def t2 split: prod.splits)
  qed
qed

lemma monitor_sdl_init_handles:
  assumes "monitor_sdl_init cfg w = Inr wi" "MONITOR_DUAL cfg"
  shows "texture (monitor wi) \<noteq> texture (monitor2 wi)"
    "renderer (monitor wi) \<noteq> renderer (monitor2 wi)"
    "window (monitor wi) \<noteq> window (monitor2 wi)"
proof -
  let ?w0 = "call SDL_SetEventFilter (call SDL_Init w)"
  from assms obtain w1 where w1: "window_create cfg Monitor ?w0 = Inr w1"
    by (cases "window_create cfg Monitor ?w0") (simp_all add: monitor_sdl_init_def)
  from assms w1 obtain w2 where w2: "window_create cfg Monitor2 w1 = Inr w2"
    by (cases "window_create cfg Monitor2 w1") (simp_all add: monitor_sdl_init_def)
  note h1 = window_create_handles [OF w1] and h2 = window_create_handles [OF w2]
  have m: "monitor wi = monitor w2" "monitor2 wi = monitor2 w2"
    using assms w1 w2 by (auto simp: monitor_sdl_init_def Let_def split: prod.splits)
  have "monitor w2 = monitor w1" using h2(6) by simp
  then have a: "window (monitor wi) = sdl_handles ?w0 + 1"
    "renderer (monitor wi) = sdl_handles ?w0 + 2" "texture (monitor wi) = sdl_handles ?w0 + 3"
    using h1(1-3) m(1) by (simp_all add: get_monitor_def)
  have b: "window (monitor2 wi) = sdl_handles ?w0 + 4"
    "renderer (monitor2 wi) = sdl_handles ?w0 + 5" "texture (monitor2 wi) = sdl_handles ?w0 + 6"
    using h2(1-3) h1(4) m(2) by (simp_all add: get_monitor_def)
  show "texture (monitor wi) \<noteq> texture (monitor2 wi)"
    "renderer (monitor wi) \<noteq> renderer (monitor2 wi)"
    "window (monitor wi) \<noteq> window (monitor2 wi)"
    unfolding a b by simp_all
qed

text \<open>
  C10. Let the start of the thread succeed (\<open>monitor_sdl_init\<close>, or nothing on
  \<open>MONITOR_APPLE\<close>, where it ran before), and let the quit flag be true for the first
  time after \<open>n\<close> cycles. Then, on any fuel of at least \<open>n\<close>, the thread returns: the loop
  ends after these \<open>n\<close> cycles, and the trace continues with the texture, the renderer
  and the window of \<open>monitor\<close>, then with \<open>MONITOR_DUAL\<close> those of \<open>monitor2\<close>, then
  \<open>SDL_Quit\<close>, then \<open>exit(0)\<close>, and ends there. These are the only teardown calls the
  thread has made, and the handles of the two surfaces differ when the thread created
  them.
\<close>

theorem teardown_once:
  assumes init: "(if \<not> MONITOR_APPLE cfg then monitor_sdl_init cfg w else Inr w) = Inr wi"
    and quit: "sdl_quit_qry ((monitor_sdl_refr_core cfg ^^ n) wi)"
    and first: "\<forall>k<n. \<not> sdl_quit_qry ((monitor_sdl_refr_core cfg ^^ k) wi)"
    and fuel: "n \<le> fuel"
  shows "\<exists>wf. monitor_sdl_refr_thread cfg fuel w = Some (Inr wf)
    \<and> trace wf = trace ((monitor_sdl_refr_core cfg ^^ n) wi)
         @ [SDL_DestroyTexture (texture (monitor wi)), SDL_DestroyRenderer (renderer (monitor wi)),
            SDL_DestroyWindow (window (monitor wi))]
         @ (if MONITOR_DUAL cfg then
              [SDL_DestroyTexture (texture (monitor2 wi)), SDL_DestroyRenderer (renderer (monitor2 wi)),
               SDL_DestroyWindow (window (monitor2 wi))]
            else [])
         @ [SDL_Quit, Exit 0]
    \<and> filter is_teardown (trace wf) = filter is_teardown (trace w)
         @ [SDL_DestroyTexture (texture (monitor wi)), SDL_DestroyRenderer (renderer (monitor wi)),
            SDL_DestroyWindow (window (monitor wi))]
         @ (if MONITOR_DUAL cfg then
              [SDL_DestroyTexture (texture (monitor2 wi)), SDL_DestroyRenderer (renderer (monitor2 wi)),
               SDL_DestroyWindow (window (monitor2 wi))]
            else [])
         @ [SDL_Quit, Exit 0]
    \<and> (\<not> MONITOR_APPLE cfg \<and> MONITOR_DUAL cfg \<longrightarrow>
          texture (monitor wi) \<noteq> texture (monitor2 wi)
          \<and> renderer (monitor wi) \<noteq> renderer (monitor2 wi)
          \<and> window (monitor wi) \<noteq> window (monitor2 wi))"
proof -
  let ?wn = "(monitor_sdl_refr_core cfg ^^ n) wi"
  let ?wf = "call (Exit 0) (monitor_sdl_clean_up cfg ?wn)"
  let ?down = "[SDL_DestroyTexture (texture (monitor wi)), SDL_DestroyRenderer (renderer (monitor wi)),
            SDL_DestroyWindow (window (monitor wi))]
         @ (if MONITOR_DUAL cfg then
              [SDL_DestroyTexture (texture (monitor2 wi)), SDL_DestroyRenderer (renderer (monitor2 wi)),
               SDL_DestroyWindow (window (monitor2 wi))]
            else [])
         @ [SDL_Quit, Exit 0]"
  have loop: "refr_loop cfg fuel wi = Some ?wn"
    using quit first fuel by (rule refr_loop_runs)
  have run: "monitor_sdl_refr_thread cfg fuel w = Some (Inr ?wf)"
    unfolding monitor_sdl_refr_thread_def init by (simp add: loop)
  have td: "teardown_events cfg ?wn @ [Exit 0] = ?down"
    by (simp add: teardown_events_def cycles_handles)
  have tr: "trace ?wf = trace ?wn @ ?down"
    using td by (simp add: clean_up_trace)
  have start: "filter is_teardown (trace wi) = filter is_teardown (trace w)"
  proof (cases "MONITOR_APPLE cfg")
    case True
    with init show ?thesis by simp
  next
    case False
    with init have "monitor_sdl_init cfg w = Inr wi" by simp
    then show ?thesis by (rule monitor_sdl_init_teardown)
  qed
  have all: "filter is_teardown ?down = ?down"
    by simp
  have "filter is_teardown (trace ?wf) = filter is_teardown (trace ?wn) @ filter is_teardown ?down"
    unfolding tr by (rule filter_append)
  then have flt: "filter is_teardown (trace ?wf) = filter is_teardown (trace w) @ ?down"
    by (simp only: all cycles_teardown start)
  have dist: "texture (monitor wi) \<noteq> texture (monitor2 wi)
          \<and> renderer (monitor wi) \<noteq> renderer (monitor2 wi)
          \<and> window (monitor wi) \<noteq> window (monitor2 wi)"
    if "\<not> MONITOR_APPLE cfg \<and> MONITOR_DUAL cfg"
  proof -
    from that init have "monitor_sdl_init cfg w = Inr wi" by simp
    from monitor_sdl_init_handles [OF this] that show ?thesis by blast
  qed
  show ?thesis
    using run tr flt dist by blast
qed


lemma monitor_sdl_init_fields:
  assumes "monitor_sdl_init cfg w = Inr wi"
  shows "sdl_pending wi = sdl_pending w" "sdl_quit_qry wi = sdl_quit_qry w"
    "window (monitor wi) = sdl_handles w + 1" "renderer (monitor wi) = sdl_handles w + 2"
    "texture (monitor wi) = sdl_handles w + 3"
proof -
  let ?w0 = "call SDL_SetEventFilter (call SDL_Init w)"
  from assms obtain w1 where w1: "window_create cfg Monitor ?w0 = Inr w1"
    by (cases "window_create cfg Monitor ?w0") (simp_all add: monitor_sdl_init_def)
  note h1 = window_create_handles [OF w1]
  have "sdl_pending wi = sdl_pending w \<and> sdl_quit_qry wi = sdl_quit_qry w
      \<and> window (monitor wi) = sdl_handles w + 1 \<and> renderer (monitor wi) = sdl_handles w + 2
      \<and> texture (monitor wi) = sdl_handles w + 3"
  proof (cases "MONITOR_DUAL cfg")
    case False
    with assms w1 have "wi = call (Store_sdl_inited True) (w1\<lparr>sdl_inited := True\<rparr>)"
      by (simp add: monitor_sdl_init_def)
    with h1 show ?thesis by (simp add: get_monitor_def)
  next
    case True
    with assms w1 obtain w2 where w2: "window_create cfg Monitor2 w1 = Inr w2"
      by (cases "window_create cfg Monitor2 w1") (simp_all add: monitor_sdl_init_def)
    note h2 = window_create_handles [OF w2]
    have m: "monitor wi = monitor w2" "sdl_pending wi = sdl_pending w2"
      "sdl_quit_qry wi = sdl_quit_qry w2"
      using assms w1 w2 True by (auto simp: monitor_sdl_init_def Let_def split: prod.splits)
    have "monitor w2 = monitor w1" using h2(6) by simp
    with m h1 h2 show ?thesis by (simp add: get_monitor_def)
  qed
  then show "sdl_pending wi = sdl_pending w" "sdl_quit_qry wi = sdl_quit_qry w"
    "window (monitor wi) = sdl_handles w + 1" "renderer (monitor wi) = sdl_handles w + 2"
    "texture (monitor wi) = sdl_handles w + 3"
    by blast+
qed

theorem teardown_once_witness:
  "\<exists>wf. monitor_sdl_refr_thread small_cfg 3
           ((start_world [0, 0, 0, 0, 0, 0, 0, 0])\<lparr>sdl_pending := [[SDL_QUIT]]\<rparr>) = Some (Inr wf)
     \<and> filter is_teardown (trace wf) =
         [SDL_DestroyTexture 3, SDL_DestroyRenderer 2, SDL_DestroyWindow 1, SDL_Quit, Exit 0]"
proof -
  let ?w = "(start_world [0, 0, 0, 0, 0, 0, 0, 0])\<lparr>sdl_pending := [[SDL_QUIT]]\<rparr>"
  have cfg: "\<not> MONITOR_APPLE small_cfg" "\<not> MONITOR_EMSCRIPTEN small_cfg" "\<not> MONITOR_DUAL small_cfg"
    "\<not> MONITOR_DOUBLE_BUFFERED small_cfg" "MONITOR_HOR_RES small_cfg = 4" "MONITOR_VER_RES small_cfg = 2"
    by (simp_all add: small_cfg_def example_cfg_def)
  have w: "sdl_pending ?w = [[SDL_QUIT]]" "\<not> sdl_quit_qry ?w" "sdl_handles ?w = 0" "trace ?w = []"
    "tft_fb (monitor ?w) = [0, 0, 0, 0, 0, 0, 0, 0]"
    by (simp_all add: start_world_def blank_monitor_def)
  have "\<exists>wi. window_create small_cfg Monitor (call SDL_SetEventFilter (call SDL_Init ?w)) = Inr wi"
    by (simp add: window_create_def cfg sdl_create_def put_monitor_def get_monitor_def
        memset_fb_def Let_def start_world_def blank_monitor_def)
  then obtain wi where i: "monitor_sdl_init small_cfg ?w = Inr wi"
    by (auto simp: monitor_sdl_init_def cfg)
  note f = monitor_sdl_init_fields [OF i]
  have init: "(if \<not> MONITOR_APPLE small_cfg then monitor_sdl_init small_cfg ?w else Inr ?w) = Inr wi"
    using i cfg(1) by simp
  have quit: "sdl_quit_qry ((monitor_sdl_refr_core small_cfg ^^ 1) wi)"
    by (simp add: refr_core_quit polling_def cfg f w is_quit_def)
  have first: "\<forall>k<1. \<not> sdl_quit_qry ((monitor_sdl_refr_core small_cfg ^^ k) wi)"
    by (simp add: f w)
  have fuel: "(1::nat) \<le> 3" by simp
  from teardown_once [OF init quit first fuel]
  obtain wf where "monitor_sdl_refr_thread small_cfg 3 ?w = Some (Inr wf)"
    and "filter is_teardown (trace wf) = filter is_teardown (trace ?w)
         @ [SDL_DestroyTexture (texture (monitor wi)), SDL_DestroyRenderer (renderer (monitor wi)),
            SDL_DestroyWindow (window (monitor wi))]
         @ (if MONITOR_DUAL small_cfg then
              [SDL_DestroyTexture (texture (monitor2 wi)), SDL_DestroyRenderer (renderer (monitor2 wi)),
               SDL_DestroyWindow (window (monitor2 wi))]
            else [])
         @ [SDL_Quit, Exit 0]"
    by blast
  then show ?thesis
    by (simp add: f w cfg)
qed

end
